theory Spec2Isabelle
  imports Complex_Main
begin

section \<open>JSON values as the JavaScript code sees them\<close>

text \<open>
  The engine keeps every signal record (a "JAM") as a plain JavaScript object that is
  written to disk with \<^verbatim>\<open>JSON.stringify\<close> and read back with \<^verbatim>\<open>JSON.parse\<close>.
  A value read from a file is therefore a JSON value. An object is an association list
  in insertion order (first binding wins on lookup); JavaScript numbers are modelled as
  reals (the IEEE rounding of the double arithmetic is not modelled).
  \<open>undefined\<close> is not a JSON value: a value that may be \<open>undefined\<close> is a
  \<open>json option\<close> with \<open>None\<close> for \<open>undefined\<close>.
\<close>

datatype json =
    JNull
  | JBool bool
  | JNum real
  | JStr string
  | JArr "json list"
  | JObj "(string \<times> json) list"

text \<open>JavaScript truthiness (\<^verbatim>\<open>if (x)\<close>, \<^verbatim>\<open>!x\<close>, \<^verbatim>\<open>x || y\<close>).\<close>

fun truthy :: "json option \<Rightarrow> bool" where
  "truthy None = False"
| "truthy (Some JNull) = False"
| "truthy (Some (JBool b)) = b"
| "truthy (Some (JNum n)) = (n \<noteq> 0)"
| "truthy (Some (JStr s)) = (s \<noteq> [])"
| "truthy (Some (JArr xs)) = True"
| "truthy (Some (JObj kvs)) = True"

text \<open>
  Property read \<^verbatim>\<open>v.k\<close> on a value that is neither \<open>null\<close> nor \<open>undefined\<close>,
  for the data keys the code uses (\<open>meta\<close>, \<open>audit_pass\<close>, \<open>actor\<close>, ...): an object
  answers with its binding, every other value with \<open>undefined\<close>.
\<close>

fun getProp :: "string \<Rightarrow> json \<Rightarrow> json option" where
  "getProp k (JObj kvs) = map_of kvs k"
| "getProp k v = None"

text \<open>Optional chaining \<^verbatim>\<open>v?.k\<close>: \<open>null\<close> and \<open>undefined\<close> give \<open>undefined\<close>.\<close>

fun optProp :: "string \<Rightarrow> json option \<Rightarrow> json option" where
  "optProp k None = None"
| "optProp k (Some JNull) = None"
| "optProp k (Some v) = getProp k v"

text \<open>
  Assignment of one own property: an existing key keeps its position, a new key is
  appended.
\<close>

fun setProp :: "string \<Rightarrow> json \<Rightarrow> (string \<times> json) list \<Rightarrow> (string \<times> json) list" where
  "setProp k v [] = [(k, v)]"
| "setProp k v ((k', v') # kvs) =
     (if k' = k then (k, v) # kvs else (k', v') # setProp k v kvs)"

text \<open>
  The own enumerable properties that an object spread \<^verbatim>\<open>{ ...v }\<close> copies: the
  bindings of an object, the indexed elements of an array, the indexed characters of a
  string, nothing for the other values.
\<close>

fun decimal :: "nat \<Rightarrow> string" where
  "decimal n =
     (if n < 10 then [char_of (48 + n)]
      else decimal (n div 10) @ [char_of (48 + n mod 10)])"

declare decimal.simps [simp del]

definition indexKeys :: "json list \<Rightarrow> (string \<times> json) list" where
  "indexKeys xs = zip (map decimal [0 ..< length xs]) xs"

fun spread :: "json \<Rightarrow> (string \<times> json) list" where
  "spread (JObj kvs) = kvs"
| "spread (JArr xs) = indexKeys xs"
| "spread (JStr s) = indexKeys (map (\<lambda>c. JStr [c]) s)"
| "spread v = []"

text \<open>\<^verbatim>\<open>{ ...a, ...b }\<close>: the properties of \<open>a\<close>, then those of \<open>b\<close> assigned over them.\<close>

definition js_assign :: "(string \<times> json) list \<Rightarrow> (string \<times> json) list \<Rightarrow> (string \<times> json) list" where
  "js_assign target src = foldl (\<lambda>acc (k, v). setProp k v acc) target src"

text \<open>
  An object literal whose property values may be \<open>undefined\<close>. Such a property is
  dropped by \<^verbatim>\<open>JSON.stringify\<close>, and the objects built this way are only serialised
  (stored and hashed), so the property is left out at construction.
\<close>

fun definedFields :: "(string \<times> json option) list \<Rightarrow> (string \<times> json) list" where
  "definedFields [] = []"
| "definedFields ((k, None) # kvs) = definedFields kvs"
| "definedFields ((k, Some v) # kvs) = (k, v) # definedFields kvs"

definition objectOf :: "(string \<times> json option) list \<Rightarrow> json" where
  "objectOf kvs = JObj (definedFields kvs)"


section \<open>The Signal Store (class JAMStore)\<close>

text \<open>
  The store is a directory of files \<^verbatim>\<open>jams/<hash>.json\<close>. The file system is a map
  from paths to file contents (text); writes are taken to succeed.

  The functions of the JavaScript runtime and of the ethers library that the code calls
  are a parameter of the model, the record \<open>runtime\<close>:
  \<^item> \<open>JSON_stringify_indent2\<close> is \<^verbatim>\<open>JSON.stringify(v, null, 2)\<close> and \<open>JSON_stringify\<close> is
    \<^verbatim>\<open>JSON.stringify(v)\<close>;
  \<^item> \<open>JSON_parse\<close> is \<^verbatim>\<open>JSON.parse\<close>, with \<open>None\<close> where it throws a \<open>SyntaxError\<close>;
  \<^item> \<open>keccak256\<close> is \<^verbatim>\<open>ethers.keccak256(ethers.toUtf8Bytes(text))\<close>;
  \<^item> \<open>toString\<close> is the string conversion of a value (template literals, \<open>join\<close>,
    \<open>+\<close> with a string), \<open>toFixed3\<close> is \<^verbatim>\<open>x.toFixed(3)\<close>;
  \<^item> \<open>toNumber\<close> is the numeric conversion of a string, an array or an object, with
    \<open>None\<close> for \<open>NaN\<close>.
\<close>

record runtime =
  JSON_stringify_indent2 :: "json \<Rightarrow> string"
  JSON_stringify :: "json \<Rightarrow> string"
  JSON_parse :: "string \<Rightarrow> json option"
  keccak256 :: "string \<Rightarrow> string"
  toString :: "json \<Rightarrow> string"
  toFixed3 :: "real \<Rightarrow> string"
  toNumber :: "json \<Rightarrow> real option"

type_synonym files = "string \<Rightarrow> string option"

datatype error = SyntaxError | TypeError | CallFailed

definition jamPath :: "string \<Rightarrow> string" where
  "jamPath hash = ''jams/'' @ hash @ ''.json''"

definition store :: "runtime \<Rightarrow> files \<Rightarrow> string \<Rightarrow> json \<Rightarrow> files" where
  "store rt fs hash jamData = fs(jamPath hash \<mapsto> JSON_stringify_indent2 rt jamData)"

definition retrieve :: "runtime \<Rightarrow> files \<Rightarrow> string \<Rightarrow> error + json option" where
  "retrieve rt fs hash =
     (case fs (jamPath hash) of
        None \<Rightarrow> Inr None
      | Some data \<Rightarrow>
          (case JSON_parse rt data of
             None \<Rightarrow> Inl SyntaxError
           | Some v \<Rightarrow> Inr (Some v)))"

text \<open>
  \<^verbatim>\<open>update(hash, updates)\<close>: returns the merged record (or \<open>null\<close>, here \<open>None\<close>) and
  the file system after the call.
\<close>

definition update :: "runtime \<Rightarrow> files \<Rightarrow> string \<Rightarrow> json \<Rightarrow> (error + json option) \<times> files" where
  "update rt fs hash updates =
     (case retrieve rt fs hash of
        Inl e \<Rightarrow> (Inl e, fs)
      | Inr existing \<Rightarrow>
          if truthy existing then
            let updated = JObj (js_assign (spread (the existing)) (spread updates))
            in (Inr (Some updated), store rt fs hash updated)
          else (Inr None, fs))"

text \<open>
  A runtime given by a finite table of file texts and the JSON values they denote. It
  is used to run the model on concrete files. The hash of a text is the text behind
  \<open>0x\<close>; the conversions to string and number are constant.
\<close>

definition tableRuntime :: "(string \<times> json) list \<Rightarrow> runtime" where
  "tableRuntime tab =
     \<lparr> JSON_stringify_indent2 =
         (\<lambda>v. case find (\<lambda>(t, w). w = v) tab of Some (t, w) \<Rightarrow> t | None \<Rightarrow> []),
       JSON_stringify =
         (\<lambda>v. case find (\<lambda>(t, w). w = v) tab of Some (t, w) \<Rightarrow> t | None \<Rightarrow> []),
       JSON_parse = map_of tab,
       keccak256 = (\<lambda>t. ''0x'' @ t),
       toString = (\<lambda>v. ''?''),
       toFixed3 = (\<lambda>x. ''?''),
       toNumber = (\<lambda>v. None) \<rparr>"

text \<open>Concrete records for running the store.\<close>

definition demoRecord :: json where
  "demoRecord =
     JObj [(''proverb'', JArr [JObj [(''from'', JStr ''WETH''), (''to'', JStr ''USDC''),
                                     (''action'', JStr ''SWAP''), (''actor'', JStr ''AMPLIFIER'')]]),
           (''meta'', JObj [(''audit_pass'', JBool True)]),
           (''cascadeDepth'', JNum 1)]"

definition demoMetaUpdate :: json where
  "demoMetaUpdate = JObj [(''meta'', JObj [(''audit_pass'', JBool False)])]"

definition demoMetaMerged :: json where
  "demoMetaMerged =
     JObj [(''proverb'', JArr [JObj [(''from'', JStr ''WETH''), (''to'', JStr ''USDC''),
                                     (''action'', JStr ''SWAP''), (''actor'', JStr ''AMPLIFIER'')]]),
           (''meta'', JObj [(''audit_pass'', JBool False)]),
           (''cascadeDepth'', JNum 1)]"

definition demoTopologyUpdate :: json where
  "demoTopologyUpdate = JObj [(''recursiveTopology'', JObj [(''eth'', JNum 1), (''bsv'', JNum 1)])]"

definition demoTopologyMerged :: json where
  "demoTopologyMerged =
     JObj [(''proverb'', JArr [JObj [(''from'', JStr ''WETH''), (''to'', JStr ''USDC''),
                                     (''action'', JStr ''SWAP''), (''actor'', JStr ''AMPLIFIER'')]]),
           (''meta'', JObj [(''audit_pass'', JBool True)]),
           (''cascadeDepth'', JNum 1),
           (''recursiveTopology'', JObj [(''eth'', JNum 1), (''bsv'', JNum 1)])]"

definition demoRuntime :: runtime where
  "demoRuntime = tableRuntime [(''record'', demoRecord), (''meta-merged'', demoMetaMerged),
                           (''topology-merged'', demoTopologyMerged)]"


section \<open>The Strategist: constants, pattern library and timing (index.js)\<close>

definition PHI :: real where "PHI = 1.618033988749895"
definition PHI_INVERSE :: real where "PHI_INVERSE = 0.618033988749895"
definition PHI_SQUARED :: real where "PHI_SQUARED = 2.618033988749895"

definition EXPLORATION_BONUS :: real where "EXPLORATION_BONUS = 0.2"
definition COOLDOWN_PENALTY :: real where "COOLDOWN_PENALTY = 0.3"
definition COOLDOWN :: int where "COOLDOWN = 300000"
definition BASE_EMISSION_INTERVAL :: int where "BASE_EMISSION_INTERVAL = 900000"

definition ZeroHash :: string where
  "ZeroHash = ''0x'' @ replicate 64 (CHR ''0'')"

text \<open>
  \<^verbatim>\<open>PROVERB_PATTERNS\<close>: the four templates, in the order of their declaration, which
  is the order of \<^verbatim>\<open>Object.keys\<close> and of \<^verbatim>\<open>Object.entries(metrics.patternSuccess)\<close>.
\<close>

datatype pattern = CLASSIC_ARBITRAGE | STABLE_ROTATION | YIELD_CAPTURE | LIQUIDITY_PROBE

definition declaredPatterns :: "pattern list" where
  "declaredPatterns = [CLASSIC_ARBITRAGE, STABLE_ROTATION, YIELD_CAPTURE, LIQUIDITY_PROBE]"

fun patternIndex :: "pattern \<Rightarrow> nat" where
  "patternIndex CLASSIC_ARBITRAGE = 0"
| "patternIndex STABLE_ROTATION = 1"
| "patternIndex YIELD_CAPTURE = 2"
| "patternIndex LIQUIDITY_PROBE = 3"

fun patternKey :: "pattern \<Rightarrow> string" where
  "patternKey CLASSIC_ARBITRAGE = ''CLASSIC_ARBITRAGE''"
| "patternKey STABLE_ROTATION = ''STABLE_ROTATION''"
| "patternKey YIELD_CAPTURE = ''YIELD_CAPTURE''"
| "patternKey LIQUIDITY_PROBE = ''LIQUIDITY_PROBE''"

definition stepOf :: "string \<Rightarrow> string \<Rightarrow> string \<Rightarrow> string \<Rightarrow> json" where
  "stepOf from_token to_token action actor =
     JObj [(''from'', JStr from_token), (''to'', JStr to_token),
           (''action'', JStr action), (''actor'', JStr actor)]"

fun patternSteps :: "pattern \<Rightarrow> json list" where
  "patternSteps CLASSIC_ARBITRAGE =
     [stepOf ''WETH'' ''USDC'' ''SWAP'' ''AMPLIFIER'', stepOf ''USDC'' ''WETH'' ''SWAP'' ''MIRROR'']"
| "patternSteps STABLE_ROTATION =
     [stepOf ''USDC'' ''DAI'' ''SWAP'' ''AMPLIFIER'', stepOf ''DAI'' ''USDC'' ''SWAP'' ''MIRROR'']"
| "patternSteps YIELD_CAPTURE =
     [stepOf ''WETH'' ''USDC'' ''SWAP'' ''AMPLIFIER'', stepOf ''USDC'' ''aUSDC'' ''DEPOSIT'' ''MIRROR'']"
| "patternSteps LIQUIDITY_PROBE =
     [stepOf ''WETH'' ''DAI'' ''SWAP'' ''AMPLIFIER'', stepOf ''DAI'' ''USDC'' ''SWAP'' ''MIRROR'']"

fun baseResonance :: "pattern \<Rightarrow> real" where
  "baseResonance CLASSIC_ARBITRAGE = PHI"
| "baseResonance STABLE_ROTATION = PHI_INVERSE"
| "baseResonance YIELD_CAPTURE = PHI_SQUARED"
| "baseResonance LIQUIDITY_PROBE = 1"

text \<open>
  Time is \<^verbatim>\<open>Date.now()\<close>, the milliseconds since the epoch, an integer. The UTC hour
  and minute of a \<^verbatim>\<open>Date\<close> are functions of it.
\<close>

definition getUTCHours :: "int \<Rightarrow> int" where
  "getUTCHours now = (now div 3600000) mod 24"

definition getUTCMinutes :: "int \<Rightarrow> int" where
  "getUTCMinutes now = (now div 60000) mod 60"

definition CONSENSUS_TIMES :: "(int \<times> int) list" where
  "CONSENSUS_TIMES = [(13, 21), (21, 1), (3, 33), (8, 1), (20, 8)]"

definition SUBINTERVALS :: "int list" where
  "SUBINTERVALS = [3, 5, 8, 13]"

text \<open>
  \<^verbatim>\<open>getMinDistanceToConsensusWindow\<close> reduces the windows with \<^verbatim>\<open>Math.min\<close> from
  \<^verbatim>\<open>Infinity\<close>. A distance is an \<open>int option\<close> with \<open>None\<close> for \<open>Infinity\<close>.
\<close>

fun minInf :: "int option \<Rightarrow> int \<Rightarrow> int option" where
  "minInf None d = Some d"
| "minInf (Some m) d = Some (min m d)"

fun leInf :: "int option \<Rightarrow> int \<Rightarrow> bool" where
  "leInf None k = False"
| "leInf (Some d) k = (d \<le> k)"

definition getMinDistanceToConsensusWindow :: "int \<Rightarrow> int option" where
  "getMinDistanceToConsensusWindow now =
     (let currentMinutes = getUTCHours now * 60 + getUTCMinutes now
      in foldl (\<lambda>minDist (hour, minute).
                  let windowMinutes = hour * 60 + minute;
                      distance = min (min \<bar>currentMinutes - windowMinutes\<bar>
                                          \<bar>currentMinutes - windowMinutes + 1440\<bar>)
                                     \<bar>currentMinutes - windowMinutes - 1440\<bar>
                  in minInf minDist distance)
               None CONSENSUS_TIMES)"

definition getConsensusMultiplier :: "int \<Rightarrow> real" where
  "getConsensusMultiplier now =
     (let minDistance = getMinDistanceToConsensusWindow now
      in if leInf minDistance 2 then PHI_SQUARED
         else if leInf minDistance 5 then PHI
         else if leInf minDistance 8 then PHI_INVERSE
         else if leInf minDistance 13 then 1 / PHI_SQUARED
         else 1)"

definition isConsensusTime :: "int \<Rightarrow> bool" where
  "isConsensusTime now = leInf (getMinDistanceToConsensusWindow now) 2"

definition isSubIntervalAt :: "int \<Rightarrow> bool" where
  "isSubIntervalAt now = (getUTCMinutes now mod 15 \<in> set SUBINTERVALS)"


section \<open>The Strategist: state, pattern selection and resonance\<close>

record stats =
  attempts :: nat
  successes :: nat
  lastUsed :: int

record metrics =
  totalAnalyses :: nat
  auditPasses :: nat
  auditFails :: nat
  emissionSuccesses :: nat
  emissionFailures :: nat
  lastAuditFailReason :: "json option"
  patternSuccess :: "pattern \<Rightarrow> stats"

record missedVector =
  mv_count :: nat
  timestamps :: "int list"
  intensities :: "real list"

record strategist =
  lastHash :: "string option"
  isEmitting :: bool
  metrics :: metrics
  emittedSignals :: "string set"
  lastEmissionTime :: int
  missedEmissions :: nat
  missedEmissionsVector :: missedVector
  jams :: files

text \<open>The state of the process after the module is loaded.\<close>

definition initialStats :: stats where
  "initialStats = \<lparr> attempts = 0, successes = 0, lastUsed = 0 \<rparr>"

definition initialStrategist :: "files \<Rightarrow> strategist" where
  "initialStrategist fs =
     \<lparr> lastHash = None, isEmitting = False,
       metrics = \<lparr> totalAnalyses = 0, auditPasses = 0, auditFails = 0, emissionSuccesses = 0,
                   emissionFailures = 0, lastAuditFailReason = None,
                   patternSuccess = (\<lambda>p. initialStats) \<rparr>,
       emittedSignals = {}, lastEmissionTime = 0, missedEmissions = 0,
       missedEmissionsVector = \<lparr> mv_count = 0, timestamps = [], intensities = [] \<rparr>,
       jams = fs \<rparr>"

text \<open>
  \<^verbatim>\<open>selectOptimalPattern\<close>. The score of one pattern, as the callback of \<^verbatim>\<open>map\<close>
  computes it (\<^verbatim>\<open>stats.lastUsed || 0\<close> is \<open>lastUsed\<close>, a number), then the stable
  sort by descending score (\<^verbatim>\<open>Array.prototype.sort\<close> with \<^verbatim>\<open>(a, b) => b.score - a.score\<close>;
  the sort is stable since ECMAScript 2019, and the project asks for Node.js 16 or
  higher) and the first entry. The list of entries has the four patterns, so it is not
  empty.
\<close>

definition patternScore :: "int \<Rightarrow> stats \<Rightarrow> real" where
  "patternScore now st =
     (let successRate = (if attempts st > 0 then real (successes st) / real (attempts st) else 0.5);
          timeSinceLastUse = now - lastUsed st;
          cooldownPenalty = (if timeSinceLastUse < COOLDOWN then COOLDOWN_PENALTY else 0);
          explorationBonus = (if attempts st < 5 then EXPLORATION_BONUS else 0)
      in successRate - cooldownPenalty + explorationBonus)"

definition selectOptimalPattern :: "int \<Rightarrow> (pattern \<Rightarrow> stats) \<Rightarrow> pattern" where
  "selectOptimalPattern now ps =
     (let patternScores = sort_key (\<lambda>(p, score). - score)
                            (map (\<lambda>p. (p, patternScore now (ps p))) declaredPatterns)
      in fst (hd patternScores))"



definition getPatternSuccessRate :: "(pattern \<Rightarrow> stats) \<Rightarrow> pattern \<Rightarrow> real" where
  "getPatternSuccessRate ps p =
     (let st = ps p
      in if attempts st = 0 then 0.5 else real (successes st) / real (attempts st))"

text \<open>
  \<^verbatim>\<open>calculateVectorMagnitude\<close>: the recency-weighted sum of the intensities over the
  length. Of the object that \<^verbatim>\<open>generateRecursivePressureVector\<close> returns the caller
  reads \<open>magnitude\<close> only, which is this value.
\<close>

definition calculateVectorMagnitude :: "missedVector \<Rightarrow> real" where
  "calculateVectorMagnitude vector =
     (let xs = intensities vector; n = length xs
      in if n = 0 then 0
         else foldl (\<lambda>acc (intensity, idx). acc + intensity * (real (idx + 1) / real n))
                    0 (zip xs [0 ..< n])
              / real n)"

text \<open>
  The two lines that compute the resonance in \<^verbatim>\<open>analyzeAndGenerateJam\<close>:
  \<^verbatim>\<open>adjustedConfidence = Math.min(0.99, base * (0.5 + successRate * 0.5) + missed * 0.1 + magnitude * 0.05)\<close>
  and \<^verbatim>\<open>adaptiveResonance = adjustedConfidence * consensusMultiplier\<close>.
\<close>

definition adjustedConfidence :: "pattern \<Rightarrow> real \<Rightarrow> nat \<Rightarrow> real \<Rightarrow> real" where
  "adjustedConfidence pat successRate missed magnitude =
     min 0.99 (baseResonance pat * (0.5 + successRate * 0.5)
               + real missed * 0.1 + magnitude * 0.05)"

definition adaptiveResonance :: "pattern \<Rightarrow> real \<Rightarrow> nat \<Rightarrow> real \<Rightarrow> real \<Rightarrow> real" where
  "adaptiveResonance pat successRate missed magnitude consensusMultiplier =
     adjustedConfidence pat successRate missed magnitude * consensusMultiplier"


section \<open>The Strategist: building a record\<close>

text \<open>JavaScript operators on JSON values.\<close>

definition orElse :: "json option \<Rightarrow> json \<Rightarrow> json" where
  "orElse v d = (if truthy v then the v else d)"

definition arrayAt :: "json list \<Rightarrow> nat \<Rightarrow> json option" where
  "arrayAt xs i = (if i < length xs then Some (xs ! i) else None)"

text \<open>
  \<^verbatim>\<open>v + 1\<close>: addition on numbers (and on \<open>null\<close>, \<open>true\<close>, \<open>false\<close>, which convert
  to numbers), concatenation otherwise.
\<close>

fun jsPlusOne :: "runtime \<Rightarrow> json \<Rightarrow> json" where
  "jsPlusOne rt (JNum n) = JNum (n + 1)"
| "jsPlusOne rt JNull = JNum 1"
| "jsPlusOne rt (JBool b) = JNum (if b then 2 else 1)"
| "jsPlusOne rt (JStr s) = JStr (s @ ''1'')"
| "jsPlusOne rt v = JStr (toString rt v @ ''1'')"

text \<open>
  The value that \<^verbatim>\<open>clock.eth++\<close> leaves in the property: the number after the old
  value's numeric conversion. \<open>NaN\<close> is written \<open>JNull\<close>, which is how it is
  serialised.
\<close>

fun jsIncrement :: "runtime \<Rightarrow> json option \<Rightarrow> json" where
  "jsIncrement rt None = JNull"
| "jsIncrement rt (Some (JNum n)) = JNum (n + 1)"
| "jsIncrement rt (Some JNull) = JNum 1"
| "jsIncrement rt (Some (JBool b)) = JNum (if b then 2 else 1)"
| "jsIncrement rt (Some v) = (case toNumber rt v of None \<Rightarrow> JNull | Some n \<Rightarrow> JNum (n + 1))"

definition truthyHash :: "string option \<Rightarrow> bool" where
  "truthyHash h = truthy (map_option JStr h)"

definition hashOrNull :: "string option \<Rightarrow> json" where
  "hashOrNull h = (case h of None \<Rightarrow> JNull | Some x \<Rightarrow> JStr x)"

text \<open>
  \<^verbatim>\<open>generateVectorClock(parentHash)\<close>. \<open>retrieve\<close> throws where the parent's file is
  not JSON.
\<close>

definition generateVectorClock :: "runtime \<Rightarrow> files \<Rightarrow> string option \<Rightarrow> error + json" where
  "generateVectorClock rt fs parentHash =
     (let clock0 = [(''eth'', JNum 0), (''bsv'', JNum 0)]
      in if truthyHash parentHash then
           (case retrieve rt fs (the parentHash) of
              Inl err \<Rightarrow> Inl err
            | Inr parentJam \<Rightarrow>
                let topology = optProp ''recursiveTopology'' parentJam;
                    parentClock = optProp ''vectorClock'' topology;
                    clock = (if truthy parentJam \<and> truthy topology \<and> truthy parentClock
                             then spread (the parentClock) else clock0)
                in Inr (JObj (setProp ''eth'' (jsIncrement rt (map_of clock ''eth'')) clock)))
         else Inr (JObj (setProp ''eth'' (jsIncrement rt (map_of clock0 ''eth'')) clock0)))"

text \<open>
  \<^verbatim>\<open>lastHash ? (jamStore.retrieve(lastHash)?.cascadeDepth || 0) + 1 : 1\<close>: the read of
  the parent (no read without a parent hash), and the depth given what was read.
\<close>

definition retrieveParent :: "runtime \<Rightarrow> files \<Rightarrow> string option \<Rightarrow> error + json option" where
  "retrieveParent rt fs parentHash =
     (if truthyHash parentHash then retrieve rt fs (the parentHash) else Inr None)"

definition nextCascadeDepth :: "runtime \<Rightarrow> string option \<Rightarrow> json option \<Rightarrow> json" where
  "nextCascadeDepth rt parentHash parentJam =
     (if truthyHash parentHash
      then jsPlusOne rt (orElse (optProp ''cascadeDepth'' parentJam) (JNum 0))
      else JNum 1)"

text \<open>\<^verbatim>\<open>a % b\<close> for a positive \<open>b\<close>: the remainder has the sign of \<open>a\<close>.\<close>

definition jsRem :: "int \<Rightarrow> int \<Rightarrow> int" where
  "jsRem a b = (if a < 0 then - ((- a) mod b) else a mod b)"

definition minimum :: "int list \<Rightarrow> int" where
  "minimum ts = foldl min (hd ts) (tl ts)"

text \<open>
  \<^verbatim>\<open>compressRecursiveState\<close>. Where the elapsed time is 0 the density is \<open>Infinity\<close>
  or \<open>NaN\<close>, serialised as \<open>null\<close>.
\<close>

definition stateSignatureOf :: "runtime \<Rightarrow> int \<Rightarrow> missedVector \<Rightarrow> real \<Rightarrow> string" where
  "stateSignatureOf rt now vector resonance =
     (let recentMisses = length (filter (\<lambda>t. now - t < 3600000) (timestamps vector))
      in toString rt (JNum (of_int (jsRem now 10000))) @ ''-''
         @ toString rt (JNum (of_int (round (resonance * 1000)))) @ ''-''
         @ toString rt (JNum (of_nat recentMisses)))"

definition compressRecursiveState :: "runtime \<Rightarrow> int \<Rightarrow> missedVector \<Rightarrow> real \<Rightarrow> json" where
  "compressRecursiveState rt now vector resonance =
     (let stateSignature = stateSignatureOf rt now vector resonance;
          density =
            (if timestamps vector = [] then JNum 0
             else let elapsed = of_int (now - minimum (timestamps vector)) / (60000 :: real)
                  in if elapsed = 0 then JNull
                     else JNum (of_int (round (real (mv_count vector) / elapsed * 100)) / 100))
      in JObj [(''v'', JNum 1),
               (''r'', JNum (of_int (round (resonance * 1000)) / 1000)),
               (''m'', JNum (of_nat (mv_count vector))),
               (''d'', density),
               (''s'', JStr stateSignature),
               (''t'', JNum (of_int (jsRem now 86400000))),
               (''signature'', JStr stateSignature)])"

text \<open>
  What a cycle observes of the world: the clock when the timing checks run and when the
  record is built and when the transaction is mined, the two draws of \<^verbatim>\<open>Math.random\<close>,
  what \<^verbatim>\<open>analyzeContract\<close> answers at each retry (\<open>Inl\<close> where it throws), whether the
  fee data, the vault call and the wait for inclusion succeed, and the cross-chain echo
  (\<open>None\<close> where it is not enabled, otherwise whether \<^verbatim>\<open>bridgeToBSV\<close> succeeds).
\<close>

record cycleEnv =
  t_start :: int
  random :: real
  analyses :: "nat \<Rightarrow> error + json"
  t_build :: int
  nonce :: nat
  feeDataOk :: bool
  emitOk :: bool
  waitOk :: bool
  t_done :: int
  bsvEcho :: "bool option"

text \<open>
  The record literal of \<^verbatim>\<open>analyzeAndGenerateJam\<close> (\<open>jamMeta\<close> is its \<open>meta\<close>
  property), for an analysis that passed the audit and has an array of hooks, and the
  parent record that \<open>retrieve\<close> returned.
\<close>

definition proverbOf :: "pattern \<Rightarrow> json list \<Rightarrow> json list" where
  "proverbOf pat hooks =
     map (\<lambda>(step, index). JObj (setProp ''hook'' (orElse (arrayAt hooks index) (JStr ''swap''))
                                  (spread step)))
         (zip (patternSteps pat) [0 ..< length (patternSteps pat)])"

definition jamMeta ::
  "runtime \<Rightarrow> cycleEnv \<Rightarrow> strategist \<Rightarrow> json \<Rightarrow> json list \<Rightarrow> pattern \<Rightarrow> real \<Rightarrow> json" where
  "jamMeta rt e s analysis hooks selectedPattern resonance =
     (let now = t_build e;
          minutes = getUTCMinutes now
      in objectOf
           [(''timestamp'', Some (JNum (of_int (now div 1000)))),
            (''parentJam'', Some (hashOrNull (lastHash s))),
            (''target_contract'', getProp ''address'' analysis),
            (''bytecode_proof'', getProp ''bytecode_proof'' analysis),
            (''substrate_hash'', getProp ''substrate_hash'' analysis),
            (''audit_pass'', Some (JBool True)),
            (''bait_hooks'', Some (JArr hooks)),
            (''pattern_type'', Some (JStr (patternKey selectedPattern))),
            (''timing_quality'', Some (JStr (toFixed3 rt (getConsensusMultiplier now)))),
            (''isPinned'', Some (JBool (leInf (getMinDistanceToConsensusWindow now) 2))),
            (''microburst'', Some (JBool (isSubIntervalAt now))),
            (''nonce'', Some (JNum (of_nat (nonce e)))),
            (''recursiveIndices'',
               Some (JArr (map (\<lambda>si. JNum (if minutes mod 15 = si then 1 else 0)) SUBINTERVALS))),
            (''phiRelations'',
               Some (JArr (map (\<lambda>p. JStr (toFixed3 rt p)) [PHI, PHI_INVERSE, PHI * PHI_INVERSE]))),
            (''recursiveState'',
               Some (compressRecursiveState rt now (missedEmissionsVector s) resonance))])"

definition buildJam ::
  "runtime \<Rightarrow> cycleEnv \<Rightarrow> strategist \<Rightarrow> json \<Rightarrow> json list \<Rightarrow> json option \<Rightarrow> json \<Rightarrow> json" where
  "buildJam rt e s analysis hooks parentJam vectorClock =
     (let now = t_build e;
          selectedPattern = selectOptimalPattern now (patternSuccess (metrics s));
          proverb = proverbOf selectedPattern hooks;
          successRate = getPatternSuccessRate (patternSuccess (metrics s)) selectedPattern;
          consensusMultiplier = getConsensusMultiplier now;
          magnitude = calculateVectorMagnitude (missedEmissionsVector s);
          resonance = adaptiveResonance selectedPattern successRate (missedEmissions s)
                        magnitude consensusMultiplier;
          depth = nextCascadeDepth rt (lastHash s) parentJam
      in JObj
           [(''proverb'', JArr proverb),
            (''meta'', jamMeta rt e s analysis hooks selectedPattern resonance),
            (''tags'', JArr
               [JStr (''STRENGTH:'' @ toFixed3 rt resonance),
                JStr (''VOICE:'' @ patternKey selectedPattern),
                JStr (''DEPTH:'' @ toString rt depth),
                JStr (''VECTOR:'' @ stateSignatureOf rt now (missedEmissionsVector s) resonance)]),
            (''recursiveTopology'', JObj
               [(''eth'', JNum 1), (''bsv'', JNum 0), (''vectorClock'', vectorClock)]),
            (''cascadeDepth'', depth),
            (''resonance'', JNum resonance)])"

fun isArray :: "json option \<Rightarrow> bool" where
  "isArray (Some (JArr xs)) = True"
| "isArray v = False"

fun elements :: "json option \<Rightarrow> json list" where
  "elements (Some (JArr xs)) = xs"
| "elements v = []"

definition bumpTotalAnalyses :: "strategist \<Rightarrow> strategist" where
  "bumpTotalAnalyses s = s\<lparr>metrics := (metrics s)\<lparr>totalAnalyses := totalAnalyses (metrics s) + 1\<rparr>\<rparr>"

definition bumpAuditFails :: "strategist \<Rightarrow> strategist" where
  "bumpAuditFails s = s\<lparr>metrics := (metrics s)\<lparr>auditFails := auditFails (metrics s) + 1\<rparr>\<rparr>"

definition bumpAuditPasses :: "strategist \<Rightarrow> strategist" where
  "bumpAuditPasses s = s\<lparr>metrics := (metrics s)\<lparr>auditPasses := auditPasses (metrics s) + 1\<rparr>\<rparr>"

definition markPatternUsed :: "pattern \<Rightarrow> int \<Rightarrow> strategist \<Rightarrow> strategist" where
  "markPatternUsed p now s =
     s\<lparr>metrics := (metrics s)\<lparr>patternSuccess :=
          (patternSuccess (metrics s))
            (p := (patternSuccess (metrics s) p)
                    \<lparr>attempts := attempts (patternSuccess (metrics s) p) + 1, lastUsed := now\<rparr>)\<rparr>\<rparr>"

definition markPatternSuccess :: "pattern \<Rightarrow> strategist \<Rightarrow> strategist" where
  "markPatternSuccess p s =
     s\<lparr>metrics := (metrics s)\<lparr>patternSuccess :=
          (patternSuccess (metrics s))
            (p := (patternSuccess (metrics s) p)
                    \<lparr>successes := successes (patternSuccess (metrics s) p) + 1\<rparr>)\<rparr>\<rparr>"

text \<open>
  The body of the \<^verbatim>\<open>try\<close> block of \<^verbatim>\<open>analyzeAndGenerateJam\<close>, after
  \<^verbatim>\<open>metrics.totalAnalyses++\<close>. The result is \<open>Inl\<close> where the block throws (the call
  of \<^verbatim>\<open>analyzeContract\<close>, a property read on a \<open>null\<close> analysis, the parse of the
  parent's file), \<open>Inr None\<close> where it returns \<open>null\<close>, and \<open>Inr (Some (jam, hash))\<close>
  where it returns a record; the state carries the metrics written before.
\<close>

definition analyzeAttempt ::
  "runtime \<Rightarrow> cycleEnv \<Rightarrow> nat \<Rightarrow> strategist \<Rightarrow> (error + (json \<times> string) option) \<times> strategist" where
  "analyzeAttempt rt e retryCount s =
     (case analyses e retryCount of
        Inl err \<Rightarrow> (Inl err, s)
      | Inr JNull \<Rightarrow> (Inl TypeError, s)
      | Inr analysis \<Rightarrow>
          if \<not> truthy (getProp ''audit_pass'' analysis) then
            (Inr None,
             (bumpAuditFails s)\<lparr>metrics := (metrics (bumpAuditFails s))
                \<lparr>lastAuditFailReason := getProp ''reason'' analysis\<rparr>\<rparr>)
          else if \<not> truthy (getProp ''bait_hooks'' analysis)
                  \<or> \<not> isArray (getProp ''bait_hooks'' analysis) then
            (Inr None, s)
          else
            let s1 = bumpAuditPasses s;
                hooks = elements (getProp ''bait_hooks'' analysis)
            in (case generateVectorClock rt (jams s1) (lastHash s1) of
                  Inl err \<Rightarrow> (Inl err, s1)
                | Inr vectorClock \<Rightarrow>
                    (case retrieveParent rt (jams s1) (lastHash s1) of
                       Inl err \<Rightarrow> (Inl err, s1)
                     | Inr parentJam \<Rightarrow>
                         let jam = buildJam rt e s1 analysis hooks parentJam vectorClock;
                             selectedPattern =
                               selectOptimalPattern (t_build e) (patternSuccess (metrics s1));
                             s2 = markPatternUsed selectedPattern (t_build e) s1;
                             hash = keccak256 rt (JSON_stringify rt jam)
                         in (Inr (Some (jam, hash)), s2))))"

text \<open>
  \<^verbatim>\<open>analyzeAndGenerateJam(retryCount)\<close>: a thrown error is retried while
  \<open>retryCount < MAX_RETRIES = 3\<close>; after that the failure is counted and \<open>null\<close> is
  returned. (The back-off delay between the retries has no effect on the state.)
\<close>

function analyzeAndGenerateJam ::
  "runtime \<Rightarrow> cycleEnv \<Rightarrow> nat \<Rightarrow> strategist \<Rightarrow> (json \<times> string) option \<times> strategist" where
  "analyzeAndGenerateJam rt e retryCount s =
     (case analyzeAttempt rt e retryCount (bumpTotalAnalyses s) of
        (Inr result, s') \<Rightarrow> (result, s')
      | (Inl err, s') \<Rightarrow>
          if retryCount < 3 then analyzeAndGenerateJam rt e (retryCount + 1) s'
          else (None, bumpAuditFails s'))"
  by pat_completeness auto
termination
  by (relation "measure (\<lambda>(rt, e, retryCount, s). 3 - retryCount)") auto

declare analyzeAndGenerateJam.simps [simp del]


section \<open>The Strategist: one cycle (detectAndEmit)\<close>

text \<open>
  What a cycle does to the world outside the process: the write of a record into the
  store, the two entry points of the vault contract, and the cross-chain echo.
\<close>

datatype effect =
    StoreWrite string
  | EmitSignal string
  | EmitRecursiveSignal string string
  | BridgeToBSV string

text \<open>
  The submission: \<^verbatim>\<open>if (!lastHash || lastHash === ethers.ZeroHash) vault.emitSignal(hash)
  else vault.emitRecursiveSignal(hash, lastHash)\<close>.
\<close>

definition submitCall :: "string option \<Rightarrow> string \<Rightarrow> effect" where
  "submitCall parentHash hash =
     (if \<not> truthyHash parentHash \<or> parentHash = Some ZeroHash
      then EmitSignal hash
      else EmitRecursiveSignal hash (the parentHash))"

text \<open>
  The timing checks of the first \<^verbatim>\<open>try\<close> block. \<open>Missed\<close>: the interval since the
  last emission has not elapsed; \<open>Declined\<close>: the probabilistic decision outside a
  consensus window said no; \<open>Proceed\<close> otherwise.
\<close>

datatype timing = Missed | Declined | Proceed

definition timingDecision :: "cycleEnv \<Rightarrow> strategist \<Rightarrow> timing" where
  "timingDecision e s =
     (let currentTime = t_start e;
          isSubInterval = isSubIntervalAt currentTime;
          currentConsensusMultiplier = getConsensusMultiplier currentTime;
          isAligned = isConsensusTime currentTime;
          adjustedInterval =
            max 60000 \<lfloor>of_int BASE_EMISSION_INTERVAL / currentConsensusMultiplier\<rfloor>
      in if \<not> isSubInterval \<and> lastEmissionTime s > 0
            \<and> currentTime - lastEmissionTime s < adjustedInterval then Missed
         else if isAligned then Proceed
         else let emissionProbability = 0.3 + 0.7 * (currentConsensusMultiplier - 1) / 1.618;
                  shouldEmit = (random e < emissionProbability \<or> isSubInterval)
              in if \<not> shouldEmit then Declined else Proceed)"

definition recordMiss :: "cycleEnv \<Rightarrow> strategist \<Rightarrow> strategist" where
  "recordMiss e s =
     s\<lparr>missedEmissions := missedEmissions s + 1,
       missedEmissionsVector :=
         \<lparr> mv_count = mv_count (missedEmissionsVector s) + 1,
           timestamps = timestamps (missedEmissionsVector s) @ [t_start e],
           intensities = intensities (missedEmissionsVector s) @ [getConsensusMultiplier (t_start e)] \<rparr>\<rparr>"

definition lastN :: "nat \<Rightarrow> 'a list \<Rightarrow> 'a list" where
  "lastN n xs = drop (length xs - n) xs"

definition emissionFailed :: "strategist \<Rightarrow> strategist" where
  "emissionFailed s =
     s\<lparr>metrics := (metrics s)\<lparr>emissionFailures := emissionFailures (metrics s) + 1\<rparr>,
       isEmitting := False\<rparr>"

text \<open>
  The state after \<^verbatim>\<open>tx.wait()\<close> returned: the success metric, the emission time, the
  reset of the missed counters, the success of the pattern named by
  \<^verbatim>\<open>jam.meta.pattern_type\<close> and the new parent pointer.
\<close>

fun patternOfKey :: "json option \<Rightarrow> pattern option" where
  "patternOfKey (Some (JStr k)) =
     (if k = ''CLASSIC_ARBITRAGE'' then Some CLASSIC_ARBITRAGE
      else if k = ''STABLE_ROTATION'' then Some STABLE_ROTATION
      else if k = ''YIELD_CAPTURE'' then Some YIELD_CAPTURE
      else if k = ''LIQUIDITY_PROBE'' then Some LIQUIDITY_PROBE
      else None)"
| "patternOfKey v = None"

definition patternTypeOf :: "json \<Rightarrow> pattern option" where
  "patternTypeOf jam = patternOfKey (optProp ''pattern_type'' (getProp ''meta'' jam))"

definition emissionSucceeded :: "cycleEnv \<Rightarrow> json \<Rightarrow> string \<Rightarrow> strategist \<Rightarrow> strategist" where
  "emissionSucceeded e jam hash s =
     (case patternTypeOf jam of None \<Rightarrow> id | Some p \<Rightarrow> markPatternSuccess p)
       (s\<lparr>metrics := (metrics s)\<lparr>emissionSuccesses := emissionSuccesses (metrics s) + 1\<rparr>,
          lastEmissionTime := t_done e,
          missedEmissions := 0,
          missedEmissionsVector :=
            \<lparr> mv_count = 0,
              timestamps = lastN 5 (timestamps (missedEmissionsVector s)),
              intensities = lastN 5 (intensities (missedEmissionsVector s)) \<rparr>,
          emittedSignals := insert hash (emittedSignals s)\<rparr>)
       \<lparr>lastHash := Some hash\<rparr>"

text \<open>
  The second \<^verbatim>\<open>try\<close> block: analysis, store, submission, bookkeeping. Where the
  analysis returns \<open>null\<close> the function returns at once (\<^verbatim>\<open>if (!result) return;\<close>), and
  the busy flag, set at the head of the block, is not reset. Every other path leaves
  the retry loop and reaches \<^verbatim>\<open>isEmitting = false\<close> at the end of the function.
\<close>

definition emitCycle :: "runtime \<Rightarrow> cycleEnv \<Rightarrow> strategist \<Rightarrow> strategist \<times> effect list" where
  "emitCycle rt e s =
     (case analyzeAndGenerateJam rt e 0 (s\<lparr>isEmitting := True\<rparr>) of
        (None, s1) \<Rightarrow> (s1, [])
      | (Some (jam, hash), s1) \<Rightarrow>
          let s2 = s1\<lparr>jams := store rt (jams s1) hash jam\<rparr>
          in if \<not> feeDataOk e then (emissionFailed s2, [StoreWrite hash])
             else if \<not> emitOk e \<or> \<not> waitOk e then
               (emissionFailed s2, [StoreWrite hash, submitCall (lastHash s2) hash])
             else
               let s3 = emissionSucceeded e jam hash s2
               in (case bsvEcho e of
                     None \<Rightarrow>
                       (s3\<lparr>isEmitting := False\<rparr>,
                        [StoreWrite hash, submitCall (lastHash s2) hash])
                   | Some ok \<Rightarrow>
                       ((if ok then s3\<lparr>isEmitting := False\<rparr> else emissionFailed s3),
                        [StoreWrite hash, submitCall (lastHash s2) hash, BridgeToBSV hash])))"

text \<open>
  \<^verbatim>\<open>detectAndEmit\<close>. The body sits in a retry loop (\<^verbatim>\<open>for (attempt ...) { try { ... break; }
  catch { switchProvider } }\<close>) whose braces are not balanced in the source; the model
  follows the indentation. Every statement of the body lies in one of the two inner
  \<^verbatim>\<open>try\<close> blocks, whose handlers catch every error and do not throw, so the loop's
  handler is never entered and the body runs once.
\<close>

definition detectAndEmit :: "runtime \<Rightarrow> cycleEnv \<Rightarrow> strategist \<Rightarrow> strategist \<times> effect list" where
  "detectAndEmit rt e s =
     (if isEmitting s then (s, [])
      else case timingDecision e s of
             Missed \<Rightarrow> ((recordMiss e s)\<lparr>isEmitting := False\<rparr>, [])
           | Declined \<Rightarrow> (s\<lparr>isEmitting := False\<rparr>, [])
           | Proceed \<Rightarrow> emitCycle rt e s)"

text \<open>Cycles one after the other, each from the state the one before left.\<close>

fun runCycles :: "runtime \<Rightarrow> cycleEnv list \<Rightarrow> strategist \<Rightarrow> strategist \<times> effect list" where
  "runCycles rt [] s = (s, [])"
| "runCycles rt (e # es) s =
     (case detectAndEmit rt e s of
        (s1, tr1) \<Rightarrow> (case runCycles rt es s1 of (s2, tr2) \<Rightarrow> (s2, tr1 @ tr2)))"


section \<open>Notions used to state the properties of the Strategist\<close>

text \<open>
  \<open>frame s s'\<close>: the two states differ in the metrics at most. \<open>noParent\<close>: the
  condition under which the submission takes the root entry point. \<open>emittedRecord\<close>:
  the record and hash of a cycle that ran to the confirmed submission (the cycle was
  not skipped, the analysis returned a record, and fee data, vault call and inclusion
  succeeded), \<open>None\<close> for every other cycle. \<open>chainOf\<close>: the records of a sequence of
  cycles that all ran to the confirmed submission. \<open>childOf\<close>: the depth and the
  own-chain counter of the child are those of the parent plus one.
\<close>

definition frame :: "strategist \<Rightarrow> strategist \<Rightarrow> bool" where
  "frame s s' = (lastHash s' = lastHash s \<and> isEmitting s' = isEmitting s
     \<and> emittedSignals s' = emittedSignals s \<and> lastEmissionTime s' = lastEmissionTime s
     \<and> missedEmissions s' = missedEmissions s
     \<and> missedEmissionsVector s' = missedEmissionsVector s \<and> jams s' = jams s)"


definition noParent :: "string option \<Rightarrow> bool" where
  "noParent parentHash = (parentHash = None \<or> parentHash = Some [] \<or> parentHash = Some ZeroHash)"

fun isVaultCall :: "effect \<Rightarrow> bool" where
  "isVaultCall (EmitSignal h) = True"
| "isVaultCall (EmitRecursiveSignal h p) = True"
| "isVaultCall c = False"

definition emittedRecord :: "runtime \<Rightarrow> cycleEnv \<Rightarrow> strategist \<Rightarrow> (json \<times> string) option" where
  "emittedRecord rt e s =
     (if isEmitting s \<or> timingDecision e s \<noteq> Proceed then None
      else case analyzeAndGenerateJam rt e 0 (s\<lparr>isEmitting := True\<rparr>) of
             (None, s1) \<Rightarrow> None
           | (Some (jam, hash), s1) \<Rightarrow>
               if feeDataOk e \<and> emitOk e \<and> waitOk e then Some (jam, hash) else None)"

fun chainOf :: "runtime \<Rightarrow> cycleEnv list \<Rightarrow> strategist \<Rightarrow> json list option" where
  "chainOf rt [] s = Some []"
| "chainOf rt (e # es) s =
     (case emittedRecord rt e s of
        None \<Rightarrow> None
      | Some (jam, hash) \<Rightarrow> map_option ((#) jam) (chainOf rt es (fst (detectAndEmit rt e s))))"

definition clockEth :: "json \<Rightarrow> json option" where
  "clockEth jam = optProp ''eth'' (optProp ''vectorClock'' (getProp ''recursiveTopology'' jam))"

definition childOf :: "json \<Rightarrow> json \<Rightarrow> bool" where
  "childOf parent child =
     ((\<forall>d. getProp ''cascadeDepth'' parent = Some (JNum d)
            \<longrightarrow> getProp ''cascadeDepth'' child = Some (JNum (d + 1)))
      \<and> (\<forall>k. clockEth parent = Some (JNum k) \<longrightarrow> clockEth child = Some (JNum (k + 1))))"

text \<open>Concrete analyses and environments for running a cycle.\<close>

definition passingAnalysis :: json where
  "passingAnalysis =
     JObj [(''address'', JStr ''0x4200000000000000000000000000000000000006''),
           (''bytecode_proof'', JStr ''0xbeef''),
           (''audit_pass'', JBool True),
           (''bait_hooks'', JArr [JStr ''swap'', JStr ''swapExactETHForTokens'',
                                  JStr ''swapExactTokensForTokens'']),
           (''substrate_hash'', JStr ''0xbeef'')]"

definition alignedEnv :: cycleEnv where
  "alignedEnv =
     \<lparr> t_start = 1699968060000, random = 0.5, analyses = (\<lambda>n. Inr passingAnalysis),
       t_build = 1699968060000, nonce = 42, feeDataOk = True, emitOk = True, waitOk = True,
       t_done = 1699968063000, bsvEcho = None \<rparr>"

definition failingAnalysis :: json where
  "failingAnalysis = JObj [(''audit_pass'', JBool False), (''reason'', JStr ''No bytecode'')]"

definition failingEnv :: cycleEnv where
  "failingEnv = alignedEnv\<lparr>analyses := (\<lambda>n. Inr failingAnalysis)\<rparr>"


text \<open>
  Two cycles of one process, for running the model: the first cycle of a process with an
  empty store at 13:21 UTC, and the next cycle at 13:23 UTC. \<open>genesisJam\<close> and
  \<open>childJam\<close> are the records that they build; \<open>chainRuntime\<close> reads the file
  \<open>jam-1\<close> as the first record.
\<close>

definition genesisHooks :: "json list" where
  "genesisHooks = [JStr ''swap'', JStr ''swapExactETHForTokens'', JStr ''swapExactTokensForTokens'']"

definition genesisState :: strategist where
  "genesisState = initialStrategist Map.empty"

definition genesisJam :: json where
  "genesisJam =
     buildJam (tableRuntime []) alignedEnv
       (bumpAuditPasses (bumpTotalAnalyses (genesisState\<lparr>isEmitting := True\<rparr>)))
       passingAnalysis genesisHooks None (JObj [(''eth'', JNum 1), (''bsv'', JNum 0)])"

definition chainRuntime :: runtime where
  "chainRuntime = tableRuntime [(''jam-1'', genesisJam)]"

definition afterGenesis :: strategist where
  "afterGenesis = fst (detectAndEmit chainRuntime alignedEnv genesisState)"

definition childEnv :: cycleEnv where
  "childEnv = alignedEnv\<lparr>t_start := 1699968180000, t_build := 1699968181000,
                         nonce := 43, t_done := 1699968184000\<rparr>"

definition childJam :: json where
  "childJam =
     buildJam chainRuntime childEnv
       (bumpAuditPasses (bumpTotalAnalyses (afterGenesis\<lparr>isEmitting := True\<rparr>)))
       passingAnalysis genesisHooks (Some genesisJam) (JObj [(''eth'', JNum 2), (''bsv'', JNum 0)])"


section \<open>The gist updater (updateGist)\<close>

definition MIN_UPDATE_INTERVAL :: int where "MIN_UPDATE_INTERVAL = 600000"

definition GIST_MAX_RETRIES :: nat where "GIST_MAX_RETRIES = 2"

text \<open>
  The answer to one PATCH request: status 200, status 403 with a body that mentions the
  rate limit, any other status, or an error of the request itself.
\<close>

datatype response = Status200 | RateLimit403 | OtherStatus | RequestError

record bridge =
  isUpdating :: bool
  lastUpdateTime :: int

definition initialBridge :: bridge where
  "initialBridge = \<lparr> isUpdating = False, lastUpdateTime = 0 \<rparr>"

text \<open>
  What an invocation observes: the clock at the interval check, the content of
  \<^verbatim>\<open>latest-jam.json\<close> (\<open>None\<close> where the file cannot be read), and for the
  \<open>i\<close>-th request of the invocation its answer and the clock when the answer ends.
\<close>

record gistEnv =
  g_now :: int
  g_file :: "string option"
  g_answers :: "nat \<Rightarrow> response \<times> int"

definition isSpace :: "char \<Rightarrow> bool" where
  "isSpace c = (c \<in> {CHR '' '', CHR 0x09, CHR 0x0A, CHR 0x0B, CHR 0x0C, CHR 0x0D})"

definition trim :: "string \<Rightarrow> string" where
  "trim s = rev (dropWhile isSpace (rev (dropWhile isSpace s)))"

text \<open>
  The retry loop \<^verbatim>\<open>for (let i = 0; i < MAX_RETRIES; i++)\<close>, with the number of rounds
  left, the index \<open>i\<close> and the value of \<open>lastUpdateTime\<close>. It returns the new
  \<open>lastUpdateTime\<close> and the answers of the requests it made, in order. Status 200
  records the time and ends the loop; the rate-limit answer records the time and
  counts as a failure; a failure is retried while rounds are left.
\<close>

fun requestLoop :: "gistEnv \<Rightarrow> nat \<Rightarrow> nat \<Rightarrow> int \<Rightarrow> int \<times> response list" where
  "requestLoop e 0 i recorded = (recorded, [])"
| "requestLoop e (Suc k) i recorded =
     (case g_answers e i of
        (Status200, t) \<Rightarrow> (t, [Status200])
      | (RateLimit403, t) \<Rightarrow>
          (case requestLoop e k (i + 1) t of (l, tr) \<Rightarrow> (l, RateLimit403 # tr))
      | (r, t) \<Rightarrow>
          (case requestLoop e k (i + 1) recorded of (l, tr) \<Rightarrow> (l, r # tr)))"

text \<open>
  \<^verbatim>\<open>updateGist\<close>: the state after the invocation and the answers of the requests
  (the external pushes) it made. The \<^verbatim>\<open>finally\<close> block resets \<open>isUpdating\<close>.
  An invocation runs to its end before the next one starts; an invocation that starts
  while another one is in progress is the case \<open>isUpdating b\<close>.
\<close>

definition updateGist :: "runtime \<Rightarrow> gistEnv \<Rightarrow> bridge \<Rightarrow> bridge \<times> response list" where
  "updateGist rt e b =
     (if isUpdating b then (b, [])
      else if g_now e - lastUpdateTime b < MIN_UPDATE_INTERVAL then (b, [])
      else case g_file e of
             None \<Rightarrow> (b\<lparr>isUpdating := False\<rparr>, [])
           | Some jamContent \<Rightarrow>
               if trim jamContent = [] then (b\<lparr>isUpdating := False\<rparr>, [])
               else if JSON_parse rt jamContent = None then (b\<lparr>isUpdating := False\<rparr>, [])
               else case requestLoop e GIST_MAX_RETRIES 0 (lastUpdateTime b) of
                      (recorded, tr) \<Rightarrow> (b\<lparr>isUpdating := False, lastUpdateTime := recorded\<rparr>, tr))"

text \<open>Invocations one after the other.\<close>

fun runUpdates :: "runtime \<Rightarrow> gistEnv list \<Rightarrow> bridge \<Rightarrow> bridge \<times> response list" where
  "runUpdates rt [] b = (b, [])"
| "runUpdates rt (e # es) b =
     (case updateGist rt e b of
        (b1, tr1) \<Rightarrow> (case runUpdates rt es b1 of (b2, tr2) \<Rightarrow> (b2, tr1 @ tr2)))"

text \<open>
  \<open>withinSpan t0 es\<close>: the invocations happen in a span shorter than the minimum
  interval that starts at \<open>t0\<close>, and no answer ends before its invocation starts.
\<close>

definition withinSpan :: "int \<Rightarrow> gistEnv list \<Rightarrow> bool" where
  "withinSpan t0 es =
     (\<forall>e \<in> set es. t0 \<le> g_now e \<and> g_now e < t0 + MIN_UPDATE_INTERVAL
                   \<and> (\<forall>i. g_now e \<le> snd (g_answers e i)))"

definition successes :: "response list \<Rightarrow> nat" where
  "successes tr = length (filter (\<lambda>r. r = Status200) tr)"

definition firstUpdate :: gistEnv where
  "firstUpdate = \<lparr> g_now = 1700000000000, g_file = Some ''jam-1'',
                   g_answers = (\<lambda>i. (Status200, 1700000000400)) \<rparr>"

definition laterUpdate :: "int \<Rightarrow> gistEnv" where
  "laterUpdate t = \<lparr> g_now = t, g_file = Some ''jam-1'',
                     g_answers = (\<lambda>i. (Status200, t + 400)) \<rparr>"

definition failingUpdate :: "int \<Rightarrow> gistEnv" where
  "failingUpdate t = \<lparr> g_now = t, g_file = Some ''jam-1'',
                       g_answers = (\<lambda>i. (OtherStatus, t + 400)) \<rparr>"


section \<open>The Amplifier (handleSignal, substrate.js)\<close>

text \<open>
  The amplifier is the reflex worker that reacts to a registered signal with the bait
  swap. Its handler is \<^verbatim>\<open>handleSignal(hash, event)\<close>.

  The text of the handler is not balanced: the \<^verbatim>\<open>try\<close> that follows the lock has no
  handler of its own. The model follows the indentation: the retry loop
  \<^verbatim>\<open>for (attempt < MAX_RETRIES)\<close> wraps a \<^verbatim>\<open>try\<close> whose handler logs and waits, the
  body ends with \<^verbatim>\<open>break\<close>, and \<^verbatim>\<open>isAmplifying = false\<close> follows the loop. Of the
  two declarations of \<^verbatim>\<open>costInEth\<close> the values are equal.

  Two identifiers are used without a declaration, and the evaluation of an identifier
  that has no binding throws a \<^verbatim>\<open>ReferenceError\<close>. \<^verbatim>\<open>encodedData\<close> occurs once in the
  repository, in the argument of \<^verbatim>\<open>wallet.sendTransaction\<close> (line 879), and nothing
  assigns it: the argument cannot be built, and the call is not made.
  \<^verbatim>\<open>actualProfitRatio\<close> is read at line 1139 and assigned at line 1169 (an assignment
  to an undeclared identifier creates the binding), so it has no binding until that
  assignment has run.

  Amounts in wei are integers; the values that are only logged or attached to a
  transaction (tags, deadline, nonce, the name of the active DEX) are left out. The
  clock of one delivery is one value (\<open>e_now\<close>).
\<close>

definition TOKENS :: "(string \<times> string) list" where
  "TOKENS =
     [(''WETH'', ''0x4200000000000000000000000000000000000006''),
      (''USDC'', ''0x833589fcd6edb6e08f4c7c32d4f71b54bda02913''),
      (''USDbC'', ''0xd9aaec86b65d86f6a7b5b1b0c42ffa531710b6ca''),
      (''DAI'', ''0x50c5725949a6f0c72e6c4a641f24049a917db0cb''),
      (''AERO'', ''0x940181a94a35a4569e4529a3cdfb74e38fd98631''),
      (''cbETH'', ''0x2ae3f1ec7f1f5012cfeab0185bfc7aa3cf0dec22''),
      (''cUSDC'', ''0x9c4ec768c28520b50860ea7a15bd7213a9ff58bf''),
      (''aUSDC'', ''0x4e65fe4dba92790696d040ac24aa414708f5c0ab''),
      (''cDAI'', ''0x60fa50ebb6bbf0854ad96bc2b9a1a4fd615c30f3''),
      (''cUSDbC'', ''0xb125e6687d4313864e53df431d5425969c15eb2f''),
      (''wstETH'', ''0xc1cba3fcea344f92d9239c08c0568f6f2f0ee452''),
      (''rETH'', ''0xb6fe221fe9eef5aba221c348ba20a1bf5e73624c''),
      (''sDAI'', ''0x86C08Cf2bD62471f22cE56ac3D656ea8D55a7D05''),
      (''COMP'', ''0x9e1028f5f1d5ede59748ffcee5532509976840e0''),
      (''AAVE'', ''0x18470019bf0e94611f15852f7e93cf5d65bc34ca'')]"

definition WETH :: string where
  "WETH = ''0x4200000000000000000000000000000000000006''"

record dex =
  ROUTER :: string
  NAME :: string
  dexTYPE :: string

definition UNISWAP_V3 :: dex where
  "UNISWAP_V3 = \<lparr> ROUTER = ''0x2626664c2603336e57b271c5c0b26f421741e481'',
                   NAME = ''Uniswap V3'', dexTYPE = ''concentrated-liquidity'' \<rparr>"

definition ROCKETSWAP :: dex where
  "ROCKETSWAP = \<lparr> ROUTER = ''0x4CF22670302b0b678B65403D8408436aBDe59aBB'',
                   NAME = ''RocketSwap'', dexTYPE = ''uniswap-v2-fork'' \<rparr>"

definition AERODROME :: dex where
  "AERODROME = \<lparr> ROUTER = ''0xcf77a3ba9a5ca399b7c97c74d54e5b1beb874e43'',
                  NAME = ''Aerodrome'', dexTYPE = ''solidly-fork'' \<rparr>"

text \<open>
  \<^verbatim>\<open>getRecursiveDEXCascade(gasPrice, tradeSize, depth)\<close> of dex-config.js; \<open>depth\<close> is
  \<open>None\<close> where the numeric conversion of the record's depth is \<open>NaN\<close> (every
  comparison is then false).
\<close>

definition getRecursiveDEXCascade :: "real \<Rightarrow> real option \<Rightarrow> dex list" where
  "getRecursiveDEXCascade gasPriceGwei depth =
     (let below = (\<lambda>k. case depth of
                          None \<Rightarrow> False
                        | Some d \<Rightarrow> gasPriceGwei < k * (PHI powr (d - 1)));
          cascade =
            (if below 0.01 then
               [(UNISWAP_V3, PHI_SQUARED), (ROCKETSWAP, PHI), (AERODROME, PHI_INVERSE)]
             else if below 0.1 then
               [(UNISWAP_V3, PHI), (ROCKETSWAP, PHI_INVERSE), (AERODROME, 1 / PHI_SQUARED)]
             else
               [(UNISWAP_V3, PHI_SQUARED), (ROCKETSWAP, PHI), (AERODROME, 1)])
      in map fst (sort_key (\<lambda>(d, priority). - priority) cascade))"

text \<open>The amplifier's own consensus multiplier (the distance is that of the Strategist).\<close>

definition amplifierMultiplier :: "int \<Rightarrow> real" where
  "amplifierMultiplier now =
     (let minDistance = getMinDistanceToConsensusWindow now
      in if leInf minDistance 2 then 2.618
         else if leInf minDistance 5 then 1.618
         else if leInf minDistance 10 then 1.382
         else 1)"

definition formatGwei :: "int \<Rightarrow> real" where
  "formatGwei wei = real_of_int wei / 10 ^ 9"

definition formatEther :: "int \<Rightarrow> real" where
  "formatEther wei = real_of_int wei / 10 ^ 18"

text \<open>\<^verbatim>\<open>ethers.parseEther(x.toFixed(8))\<close>: \<open>x\<close> rounded to eight decimals, in wei.\<close>

definition parseEtherFixed8 :: "real \<Rightarrow> int" where
  "parseEtherFixed8 x = round (x * 10 ^ 8) * 10 ^ 10"

definition calculateTradeAmount :: "int \<Rightarrow> real \<Rightarrow> int \<Rightarrow> int" where
  "calculateTradeAmount now signalConfidence gasPrice =
     (if gasPrice \<le> 0 then 0
      else
        let consensusMultiplier = amplifierMultiplier now;
            gasPriceGwei = formatGwei gasPrice;
            tiered = (if gasPriceGwei > 75 then parseEtherFixed8 (0.000001618 / PHI ^ 2)
                      else if gasPriceGwei > 50 then parseEtherFixed8 (0.000001618 / PHI)
                      else 1618000000000);
            scaled = parseEtherFixed8 (formatEther tiered * consensusMultiplier)
        in if signalConfidence > 0.95 then scaled * 144 div 100 else scaled)"

text \<open>
  \<^verbatim>\<open>calculateStatisticalRarity\<close>, on the history \<^verbatim>\<open>recentGasPrices\<close> (no code adds to
  the history: \<^verbatim>\<open>updateGasHistory\<close> has no caller).
\<close>

definition calculateStatisticalRarity :: "real list \<Rightarrow> int \<Rightarrow> real" where
  "calculateStatisticalRarity recentGasPrices currentGasPrice =
     (if length recentGasPrices < 10 then 0.5
      else
        let gasPriceGwei = formatGwei currentGasPrice;
            n = real (length recentGasPrices);
            avgGas = sum_list recentGasPrices / n;
            variance = sum_list (map (\<lambda>x. (x - avgGas) ^ 2) recentGasPrices) / n;
            stdDev = sqrt variance
        in if gasPriceGwei > avgGas + 2 * stdDev then 0.97
           else if gasPriceGwei > avgGas + 1.5 * stdDev then 0.9
           else if gasPriceGwei > avgGas + stdDev then 0.8
           else if gasPriceGwei < avgGas - stdDev then 0.7
           else 0.6)"

definition MIN_SIGNAL_THRESHOLD :: int where
  "MIN_SIGNAL_THRESHOLD = 100000000000"

definition isSemanticallyLegible :: "json \<Rightarrow> int \<Rightarrow> string list \<Rightarrow> bool" where
  "isSemanticallyLegible step tradeAmount swapPath =
     ((case step of JObj kvs \<Rightarrow> True | JArr xs \<Rightarrow> True | v \<Rightarrow> False)
      \<and> tradeAmount \<noteq> 0
      \<and> truthy (getProp ''from'' step) \<and> truthy (getProp ''to'' step)
      \<and> truthy (getProp ''action'' step)
      \<and> \<not> tradeAmount < MIN_SIGNAL_THRESHOLD
      \<and> length swapPath = 2
      \<and> list_all (\<lambda>token. token \<in> set (map snd TOKENS)) swapPath)"

text \<open>
  A number of the JavaScript arithmetic where a division by zero can occur, the value
  held by \<^verbatim>\<open>actualProfitRatio\<close>.
\<close>

datatype jsNumber = Finite real | PosInfinity | NegInfinity | NaN

definition jsDivide :: "real \<Rightarrow> real \<Rightarrow> jsNumber" where
  "jsDivide a b =
     (if b \<noteq> 0 then Finite (a / b)
      else if a > 0 then PosInfinity else if a < 0 then NegInfinity else NaN)"

fun greaterThan :: "jsNumber \<Rightarrow> real \<Rightarrow> bool" where
  "greaterThan (Finite x) k = (x > k)"
| "greaterThan PosInfinity k = True"
| "greaterThan v k = False"

definition calculateRecursiveDepth :: "int \<Rightarrow> real \<Rightarrow> int \<Rightarrow> jsNumber \<Rightarrow> real" where
  "calculateRecursiveDepth now confidence gasPrice profitRatio =
     (let d0 = (1 :: real);
          d1 = (if confidence > 0.95 then d0 + 0.618034 else d0);
          d2 = (if formatGwei gasPrice < 0.001 then d1 + 1.618034 else d1);
          d3 = (if greaterThan profitRatio 15 then d2 + 1.618034 else d2);
          d4 = (if amplifierMultiplier now > 2 then d3 + 0.381966 else d3)
      in min (real_of_int \<lfloor>d4 * 1.618034\<rfloor>) 4)"

text \<open>
  Strings: \<^verbatim>\<open>toLowerCase\<close> on the ASCII letters (addresses are ASCII), and
  \<^verbatim>\<open>includes\<close>.
\<close>

definition toLowerCase :: "string \<Rightarrow> string" where
  "toLowerCase s =
     map (\<lambda>c. case map_of (zip ''ABCDEFGHIJKLMNOPQRSTUVWXYZ'' ''abcdefghijklmnopqrstuvwxyz'') c of
                 Some lower \<Rightarrow> lower
               | None \<Rightarrow> c) s"

fun includes_str :: "string \<Rightarrow> string \<Rightarrow> bool" where
  "includes_str [] pat = (pat = [])"
| "includes_str (c # cs) pat = (take (length pat) (c # cs) = pat \<or> includes_str cs pat)"

text \<open>
  \<^verbatim>\<open>proverb.find(step => step.actor === actor)\<close>. It throws where \<open>proverb\<close> has no
  \<open>find\<close> (it is not an array) and where it reaches a \<open>null\<close> element.
\<close>

fun findStep :: "string \<Rightarrow> json list \<Rightarrow> error + json option" where
  "findStep actor [] = Inr None"
| "findStep actor (JNull # steps) = Inl TypeError"
| "findStep actor (step # steps) =
     (if getProp ''actor'' step = Some (JStr actor) then Inr (Some step)
      else findStep actor steps)"

definition findActor :: "string \<Rightarrow> json option \<Rightarrow> error + json option" where
  "findActor actor proverb =
     (case proverb of Some (JArr steps) \<Rightarrow> findStep actor steps | v \<Rightarrow> Inl TypeError)"

text \<open>
  The token of a step: \<^verbatim>\<open>WETH\<close> for \<open>ETH\<close> and \<open>WETH\<close>, \<^verbatim>\<open>TOKENS[name]\<close>
  otherwise (\<open>None\<close> where the table has no such key; the properties that every
  object inherits are not modelled, a name like \<open>constructor\<close> fails the legibility
  check later instead, with the same exit).
\<close>

definition tokenOf :: "runtime \<Rightarrow> json option \<Rightarrow> string option" where
  "tokenOf rt name =
     (case name of
        None \<Rightarrow> None
      | Some (JStr k) \<Rightarrow> if k = ''ETH'' \<or> k = ''WETH'' then Some WETH else map_of TOKENS k
      | Some v \<Rightarrow> map_of TOKENS (toString rt v))"

text \<open>The configuration of the process (environment variables).\<close>

record config =
  YOUR_EMITTER :: string
  VAULT_ADDRESS :: string
  MAX_GAS_PRICE :: int
  ENABLE_RECURSIVE_SIGNALS :: bool

text \<open>
  The binding of the identifier \<^verbatim>\<open>encodedData\<close>: there is none (\<open>None\<close>), in every
  state of the process.
\<close>

definition encodedData :: "string option" where
  "encodedData = None"

text \<open>
  The module state of the amplifier, with the store directory. \<open>actualProfitRatio\<close>
  is \<open>None\<close> while the identifier has no binding.
\<close>

record amplifier =
  isAmplifying :: bool
  jamFiles :: files
  amplifiedSignals :: "(string \<times> string) list"
  recentGasPrices :: "real list"
  recursiveDepth :: real
  actualProfitRatio :: "jsNumber option"

definition initialAmplifier :: "files \<Rightarrow> amplifier" where
  "initialAmplifier fs =
     \<lparr> isAmplifying = False, jamFiles = fs, amplifiedSignals = [], recentGasPrices = [],
       recursiveDepth = 1, actualProfitRatio = None \<rparr>"

text \<open>
  What the handler observes of the chain and of the other services. A call that can
  fail is \<open>None\<close> (or \<open>Inl\<close>) where it throws; calls that only return or throw and
  come one after the other without an action between them are one field.

  For one pass of the DEX loop: \<open>d_prepared\<close> (the router contract, \<^verbatim>\<open>getNextNonce\<close>
  and the bundle library are there), \<open>d_send\<close> (the hash of the public transaction),
  \<open>d_receipt\<close> (\<^verbatim>\<open>publicTx.wait()\<close>: block number and effective gas price),
  \<open>d_mirrorBalance\<close> (the mirror wallet's balance of the bought token),
  \<open>d_amountsOut\<close> (the estimate; a failure is caught), \<open>d_bundleBuilt\<close> (the capture
  transaction is populated and the bundle signed), \<open>d_bundleResponse\<close>
  (\<^verbatim>\<open>sendRawBundle\<close>: \<open>Some False\<close> for a response with \<open>error\<close>), \<open>d_bundleWait\<close>
  (the resolution), \<open>d_finalBalance\<close> and \<open>d_logWritten\<close>.
\<close>

record dexEnv =
  d_prepared :: bool
  d_send :: "string option"
  d_receipt :: "(int \<times> int) option"
  d_mirrorBalance :: "int option"
  d_amountsOut :: "int option"
  d_bundleBuilt :: bool
  d_bundleResponse :: "bool option"
  d_bundleWait :: "int option"
  d_finalBalance :: bool
  d_logWritten :: bool

record txInfo =
  tx_from :: string
  tx_to :: "string option"
  tx_data :: string

record signalEnv =
  e_now :: int
  e_getTransaction :: "error + txInfo option"
  e_parseTransaction :: "error + string option"
  e_gasPrice :: "error + int"
  e_getBalance :: bool
  e_dex :: "nat \<Rightarrow> dexEnv"
  e_swapReceipt :: "(int \<times> int) option"
  e_walletBalance :: "int option"
  e_transferReady :: bool
  e_bridge :: "nat \<Rightarrow> bool"

text \<open>
  The actions of the handler on the execution adapters and on the other services, in
  the order of their invocation: the public bait swap (\<^verbatim>\<open>wallet.sendTransaction\<close> to a
  router), the private capture bundle (with the number of its transactions), the line
  in the profit log, the transfer of the bought token to the mirror wallet, the echo
  to BSV and the recursive signal on the vault. An action is listed when it is
  invoked, whether it then succeeds or throws.
\<close>

datatype action =
    PublicSwap string string
  | CaptureBundle nat
  | ProfitLog string
  | TokenTransfer string
  | BsvEcho string
  | RecursiveSignal string string

datatype gate = Pass | Release | Raise

text \<open>
  Lines 722 to 755: the transaction behind the event. \<open>Release\<close> is
  \<^verbatim>\<open>isAmplifying = false; return\<close>, \<open>Raise\<close> an exception (it reaches the handler
  of the retry loop).
\<close>

definition checkTransaction :: "config \<Rightarrow> signalEnv \<Rightarrow> gate" where
  "checkTransaction cfg e =
     (case e_getTransaction e of
        Inl err \<Rightarrow> Raise
      | Inr None \<Rightarrow> Release
      | Inr (Some tx) \<Rightarrow>
          let isFromVault =
                (case tx_to tx of
                   None \<Rightarrow> False
                 | Some a \<Rightarrow> a \<noteq> [] \<and> toLowerCase a = toLowerCase (VAULT_ADDRESS cfg))
          in if toLowerCase (tx_from tx) \<noteq> toLowerCase (YOUR_EMITTER cfg) then Release
             else if isFromVault then
               (case e_parseTransaction e of
                  Inl err \<Rightarrow> Release
                | Inr None \<Rightarrow> Release
                | Inr (Some name) \<Rightarrow> if includes_str name ''Signal'' then Pass else Release)
             else Pass)"

text \<open>
  The guard of line 775:
  \<^verbatim>\<open>!jamData || !jamData.meta || !jamData.meta.audit_pass\<close> is its negation.
\<close>

definition auditVerified :: "json option \<Rightarrow> bool" where
  "auditVerified jamData =
     (truthy jamData \<and> truthy (optProp ''meta'' jamData)
      \<and> truthy (optProp ''audit_pass'' (optProp ''meta'' jamData)))"

text \<open>
  One pass of the DEX loop, lines 862 to 1023: \<open>Sent\<close> is the \<^verbatim>\<open>break\<close> with the
  public transaction, \<open>NothingToCapture\<close> the \<^verbatim>\<open>return\<close> of line 897, \<open>Failed\<close> an
  exception (it reaches the handler of the loop). The argument of
  \<^verbatim>\<open>wallet.sendTransaction\<close> is evaluated before the call: without a binding of
  \<^verbatim>\<open>encodedData\<close> the pass fails there and the swap is not sent.
\<close>

datatype attempt = Sent string | NothingToCapture | Failed

definition dexAttempt :: "config \<Rightarrow> dexEnv \<Rightarrow> json option \<Rightarrow> string \<Rightarrow> dex \<Rightarrow> attempt \<times> action list" where
  "dexAttempt cfg d proverb hash dex =
     (if \<not> d_prepared d then (Failed, [])
      else
        case encodedData of
          None \<Rightarrow> (Failed, [])
        | Some txData \<Rightarrow>
       (let bait = [PublicSwap (ROUTER dex) txData]
        in case d_send d of
             None \<Rightarrow> (Failed, bait)
           | Some txHash \<Rightarrow>
        (case d_receipt d of
             None \<Rightarrow> (Failed, bait)
           | Some (blockNumber, effectiveGasPrice) \<Rightarrow>
        (case findActor ''MIRROR'' proverb of
             Inl err \<Rightarrow> (Failed, bait)
           | Inr None \<Rightarrow> (Failed, bait)
           | Inr (Some mirrorStep) \<Rightarrow>
        (case d_mirrorBalance d of
             None \<Rightarrow> (Failed, bait)
           | Some tokenBalance \<Rightarrow>
               if tokenBalance = 0 then (NothingToCapture, bait)
               else
                 let estimatedEthOut = (case d_amountsOut d of None \<Rightarrow> 0 | Some out \<Rightarrow> out);
                     captureGasPrice = effectiveGasPrice * 2;
                     estimatedGasCost = 200000 * captureGasPrice;
                     estimatedProfit = (if estimatedEthOut > estimatedGasCost
                                        then estimatedEthOut - estimatedGasCost else 0);
                     bribeAmount = estimatedProfit * 80 div 100
                 in if \<not> d_bundleBuilt d then (Failed, bait)
                    else
                      let capture = bait @ [CaptureBundle (if bribeAmount > 0 then 2 else 1)]
                      in (case d_bundleResponse d of
                            None \<Rightarrow> (Failed, capture)
                          | Some accepted \<Rightarrow>
                              if \<not> accepted then (Failed, capture)
                              else if d_bundleWait d = None \<or> \<not> d_finalBalance d
                              then (Failed, capture)
                              else if d_logWritten d
                              then (Sent txHash, capture @ [ProfitLog hash])
                              else (Failed, capture @ [ProfitLog hash])))))))"

datatype exit = Returned | Completed

text \<open>
  The loop \<^verbatim>\<open>for (const dex of DEX_CASCADE)\<close>, at position \<open>i\<close>, and its actions.
  \<open>Broke\<close>: the \<^verbatim>\<open>break\<close>, with the hash of the public transaction (\<^verbatim>\<open>swapTx\<close>);
  \<open>ReturnedInLoop\<close>: the \<^verbatim>\<open>return\<close> of line 897; \<open>AllFailed\<close>: the exception after a
  failure on the last DEX of the cascade; \<open>Exhausted\<close>: the loop ends and \<^verbatim>\<open>swapTx\<close>
  is still \<open>undefined\<close>.
\<close>

datatype loopEnd = Broke string | ReturnedInLoop | AllFailed | Exhausted

fun dexLoop :: "config \<Rightarrow> signalEnv \<Rightarrow> json option \<Rightarrow> string \<Rightarrow> dex list \<Rightarrow> dex list \<Rightarrow> nat
                \<Rightarrow> loopEnd \<times> action list" where
  "dexLoop cfg e proverb hash cascade [] i = (Exhausted, [])"
| "dexLoop cfg e proverb hash cascade (dex # rest) i =
     (case dexAttempt cfg (e_dex e i) proverb hash dex of
        (Sent txHash, tr) \<Rightarrow> (Broke txHash, tr)
      | (NothingToCapture, tr) \<Rightarrow> (ReturnedInLoop, tr)
      | (Failed, tr) \<Rightarrow>
          if ROUTER dex = ROUTER (last cascade) then (AllFailed, tr)
          else (case dexLoop cfg e proverb hash cascade rest (i + 1) of
                  (x, tr') \<Rightarrow> (x, tr @ tr')))"

text \<open>
  The echo to BSV under \<^verbatim>\<open>withRetries\<close> (three attempts): the record read by the
  handler gets a topology where it has none, the echo is sent, and after an echo that
  returned the \<open>bsv\<close> counter of the record is incremented and the topology is merged
  into the stored record. The result is the store and the actions.
\<close>

definition ensureTopology :: "json \<Rightarrow> json" where
  "ensureTopology jamData =
     (if truthy (getProp ''recursiveTopology'' jamData) then jamData
      else case jamData of
             JObj kvs \<Rightarrow> JObj (setProp ''recursiveTopology''
                                 (JObj [(''eth'', JNum 1), (''bsv'', JNum 0), (''bch'', JNum 0)]) kvs)
           | v \<Rightarrow> v)"

definition countEcho :: "runtime \<Rightarrow> json \<Rightarrow> json" where
  "countEcho rt jamData =
     (case jamData of
        JObj kvs \<Rightarrow>
          (case map_of kvs ''recursiveTopology'' of
             Some (JObj topology) \<Rightarrow>
               JObj (setProp ''recursiveTopology''
                       (JObj (setProp ''bsv''
                                (jsPlusOne rt (orElse (map_of topology ''bsv'') (JNum 0))) topology))
                       kvs)
           | v \<Rightarrow> jamData)
      | v \<Rightarrow> jamData)"

fun bridgeWithRetries :: "runtime \<Rightarrow> signalEnv \<Rightarrow> string \<Rightarrow> nat \<Rightarrow> nat \<Rightarrow> json \<Rightarrow> files
                          \<Rightarrow> files \<times> action list" where
  "bridgeWithRetries rt e hash 0 i jamData fs = (fs, [])"
| "bridgeWithRetries rt e hash (Suc n) i jamData fs =
     (let jamData1 = ensureTopology jamData
      in if \<not> e_bridge e i then
           (case bridgeWithRetries rt e hash n (i + 1) jamData1 fs of
              (fs', tr) \<Rightarrow> (fs', BsvEcho hash # tr))
         else
           let jamData2 = countEcho rt jamData1
           in case update rt fs hash
                     (objectOf [(''recursiveTopology'', getProp ''recursiveTopology'' jamData2)]) of
                (Inl err, fs1) \<Rightarrow>
                  (case bridgeWithRetries rt e hash n (i + 1) jamData2 fs1 of
                     (fs', tr) \<Rightarrow> (fs', BsvEcho hash # tr))
              | (Inr merged, fs1) \<Rightarrow> (fs1, [BsvEcho hash]))"

text \<open>The object that the recursive signal hashes.\<close>

definition amplificationSignal :: "int \<Rightarrow> string \<Rightarrow> string \<Rightarrow> real \<Rightarrow> real \<Rightarrow> real \<Rightarrow> json" where
  "amplificationSignal now hash txHash actualCostEth amplificationValue depth =
     (let multiplier = amplifierMultiplier now;
          depth1 = (if depth \<noteq> 0 then depth else 1);
          distance = (case getMinDistanceToConsensusWindow now of
                        None \<Rightarrow> JNull | Some d \<Rightarrow> JNum (real_of_int d))
      in JObj [(''type'', JStr ''recursive_amplification''),
               (''originalSignal'', JStr (if hash \<noteq> [] then take 10 hash else ''unknown'')),
               (''swapTx'', JStr (if txHash \<noteq> [] then txHash else ''unknown'')),
               (''cost'', JNum actualCostEth),
               (''efficiency'', JStr (if actualCostEth < 0.00002 then ''optimal'' else ''acceptable'')),
               (''timestamp'', JNum (real_of_int (now div 1000))),
               (''ipfs'', JStr ''__IPFS_MANIFEST_HASH__''),
               (''profit'', JNum (amplificationValue - actualCostEth)),
               (''cascadeDepth'', JNum depth1),
               (''consensusMultiplier'', JNum multiplier),
               (''phi_alignment'',
                  JObj [(''depth'', JNum depth1), (''window_distance'', distance),
                        (''resonance'', JNum (depth1 * multiplier))])])"

text \<open>
  Lines 1159 to 1356, after the public transaction \<open>txHash\<close> is known and the module
  variable \<^verbatim>\<open>actualProfitRatio\<close> was read: the receipt, the transfer to the mirror
  wallet, the echo and the recursive signal.
\<close>

definition settle :: "runtime \<Rightarrow> config \<Rightarrow> signalEnv \<Rightarrow> string \<Rightarrow> int \<Rightarrow> json \<Rightarrow> json
                      \<Rightarrow> int \<Rightarrow> real \<Rightarrow> string \<Rightarrow> amplifier \<Rightarrow> exit \<times> amplifier \<times> action list" where
  "settle rt cfg e hash gasPrice jamData myStep finalTradeAmount signalStrength txHash s =
     (case e_swapReceipt e of
        None \<Rightarrow> (Completed, s, [])
      | Some (gasUsed, effectiveGasPrice) \<Rightarrow>
          let paidPrice = (if effectiveGasPrice \<noteq> 0 then effectiveGasPrice else gasPrice);
              actualCostEth = formatEther (gasUsed * paidPrice);
              amplificationValue = formatEther finalTradeAmount;
              ratio = jsDivide amplificationValue actualCostEth;
              s1 = s\<lparr>actualProfitRatio := Some ratio\<rparr>
          in (case tokenOf rt (getProp ''to'' myStep) of
               None \<Rightarrow> (Returned, s1, [])
             | Some tokenAddress \<Rightarrow>
          (case e_walletBalance e of
               None \<Rightarrow> (Completed, s1, [])
             | Some tokenBalance \<Rightarrow>
                 let transfer = (if tokenBalance > 0 \<and> e_transferReady e
                                 then [TokenTransfer tokenAddress] else []);
                     (fs, echo) = bridgeWithRetries rt e hash 3 0 jamData (jamFiles s1);
                     depth = calculateRecursiveDepth (e_now e) signalStrength paidPrice ratio;
                     s2 = s1\<lparr>jamFiles := fs, recursiveDepth := depth\<rparr>;
                     ampHash = keccak256 rt (JSON_stringify rt
                                 (amplificationSignal (e_now e) hash txHash actualCostEth
                                    amplificationValue depth));
                     recursive =
                       (if ENABLE_RECURSIVE_SIGNALS cfg
                           \<and> (depth \<ge> 2 \<or> (amplificationValue > actualCostEth * 15
                                             \<and> amplifierMultiplier (e_now e) > 1))
                        then [RecursiveSignal ampHash hash] else [])
                 in (Completed, s2, transfer @ echo @ recursive))))"

text \<open>
  \<^verbatim>\<open>proverb.some(step => step.actor === 'AMPLIFIER' && step.action === 'SWAP')\<close>, and
  \<^verbatim>\<open>Map.prototype.set\<close> on the map of amplified signals (swap transaction to signal).
\<close>

definition someAmplifierSwap :: "json option \<Rightarrow> bool" where
  "someAmplifierSwap proverb =
     (case proverb of
        Some (JArr steps) \<Rightarrow>
          list_ex (\<lambda>step. getProp ''actor'' step = Some (JStr ''AMPLIFIER'')
                        \<and> getProp ''action'' step = Some (JStr ''SWAP'')) steps
      | v \<Rightarrow> False)"

fun mapSet :: "string \<Rightarrow> string \<Rightarrow> (string \<times> string) list \<Rightarrow> (string \<times> string) list" where
  "mapSet k v [] = [(k, v)]"
| "mapSet k v ((k', v') # kvs) =
     (if k' = k then (k, v) # kvs else (k', v') # mapSet k v kvs)"

text \<open>
  Lines 780 to 1157, for a record that passed the guard: the amplifier's step, the
  amounts, the tokens, the DEX loop, and the checks before the transaction is
  tracked.
\<close>

definition swapStage :: "runtime \<Rightarrow> config \<Rightarrow> signalEnv \<Rightarrow> string \<Rightarrow> int \<Rightarrow> json \<Rightarrow> amplifier
                         \<Rightarrow> exit \<times> amplifier \<times> action list" where
  "swapStage rt cfg e hash gasPrice jamData s =
     (let proverb = getProp ''proverb'' jamData
      in case findActor ''AMPLIFIER'' proverb of
           Inl err \<Rightarrow> (Completed, s, [])
         | Inr None \<Rightarrow> (Returned, s, [])
         | Inr (Some myStep) \<Rightarrow>
             if getProp ''action'' myStep \<noteq> Some (JStr ''SWAP'') then (Returned, s, [])
             else
               let depth = (case orElse (getProp ''cascadeDepth'' jamData) (JNum 1) of
                              JNum d \<Rightarrow> Some d
                            | JBool b \<Rightarrow> Some 1
                            | v \<Rightarrow> toNumber rt v);
                   cascade = getRecursiveDEXCascade (formatGwei gasPrice) depth;
                   statisticalRarity = calculateStatisticalRarity (recentGasPrices s) gasPrice;
                   signalStrength = min 0.99 (statisticalRarity * 0.7 + 0.9 * 0.3)
               in (case tokenOf rt (getProp ''from'' myStep) of
                    None \<Rightarrow> (Returned, s, [])
                  | Some fromToken \<Rightarrow>
               (case tokenOf rt (getProp ''to'' myStep) of
                    None \<Rightarrow> (Returned, s, [])
                  | Some toToken \<Rightarrow>
                      let finalTradeAmount = calculateTradeAmount (e_now e) 0.9 gasPrice
                      in if \<not> e_getBalance e then (Completed, s, [])
                         else if \<not> isSemanticallyLegible myStep finalTradeAmount [fromToken, toToken]
                         then (Returned, s, [])
                         else
                           (case dexLoop cfg e proverb hash cascade cascade 0 of
                              (ReturnedInLoop, tr) \<Rightarrow> (Returned, s, tr)
                            | (AllFailed, tr) \<Rightarrow> (Completed, s, tr)
                            | (Exhausted, tr) \<Rightarrow> (Completed, s, tr)
                            | (Broke txHash, tr) \<Rightarrow>
                                if txHash = [] then (Completed, s, tr)
                                else if gasPrice > MAX_GAS_PRICE cfg then (Returned, s, tr)
                                else if \<not> someAmplifierSwap proverb then (Returned, s, tr)
                                else if actualProfitRatio s = None then (Completed, s, tr)
                                else
                                  let s1 = s\<lparr>amplifiedSignals :=
                                              mapSet txHash hash (amplifiedSignals s)\<rparr>
                                  in (case settle rt cfg e hash gasPrice jamData myStep
                                             finalTradeAmount signalStrength txHash s1 of
                                        (x, s2, tr') \<Rightarrow> (x, s2, tr @ tr'))))))"

text \<open>
  Lines 765 to 1365, the inner \<^verbatim>\<open>try\<close>: the fee data, the record of the hash and
  the guard. Every exception is caught by the handler of line 1358.
\<close>

definition amplification :: "runtime \<Rightarrow> config \<Rightarrow> signalEnv \<Rightarrow> string \<Rightarrow> amplifier
                             \<Rightarrow> exit \<times> amplifier \<times> action list" where
  "amplification rt cfg e hash s =
     (case e_gasPrice e of
        Inl err \<Rightarrow> (Completed, s, [])
      | Inr gasPrice \<Rightarrow>
          (case retrieve rt (jamFiles s) hash of
             Inl err \<Rightarrow> (Completed, s, [])
           | Inr jamData \<Rightarrow>
               if \<not> auditVerified jamData then (Returned, s, [])
               else swapStage rt cfg e hash gasPrice (the jamData) s))"

text \<open>
  The retry loop with \<open>n\<close> attempts left, and \<^verbatim>\<open>handleSignal\<close>. A \<^verbatim>\<open>return\<close> leaves
  the lock as it is; the \<^verbatim>\<open>break\<close> and the end of the attempts lead to
  \<^verbatim>\<open>isAmplifying = false\<close>. The observations of a later attempt are those of the
  first (a later attempt finds the lock set and reads none of them).
\<close>

fun attempts :: "runtime \<Rightarrow> config \<Rightarrow> signalEnv \<Rightarrow> string \<Rightarrow> nat \<Rightarrow> amplifier
                 \<Rightarrow> amplifier \<times> action list" where
  "attempts rt cfg e hash 0 s = (s\<lparr>isAmplifying := False\<rparr>, [])"
| "attempts rt cfg e hash (Suc n) s =
     (if isAmplifying s then (s, [])
      else
        let s1 = s\<lparr>isAmplifying := True\<rparr>
        in case checkTransaction cfg e of
             Raise \<Rightarrow> attempts rt cfg e hash n s1
           | Release \<Rightarrow> (s1\<lparr>isAmplifying := False\<rparr>, [])
           | Pass \<Rightarrow>
               (case amplification rt cfg e hash s1 of
                  (Returned, s2, tr) \<Rightarrow> (s2, tr)
                | (Completed, s2, tr) \<Rightarrow> (s2\<lparr>isAmplifying := False\<rparr>, tr)))"

definition handleSignal :: "runtime \<Rightarrow> config \<Rightarrow> signalEnv \<Rightarrow> string \<Rightarrow> amplifier
                            \<Rightarrow> amplifier \<times> action list" where
  "handleSignal rt cfg e hash s = attempts rt cfg e hash 3 s"


text \<open>
  Records with both steps of a template, as the Strategist stores them, for running
  the handler: the store holds a verified record under \<open>0xsignal-1\<close>, a record that
  failed the audit under \<open>0xsignal-2\<close>, and a file that is not JSON under
  \<open>0xsignal-3\<close>.
\<close>

definition signalRecord :: json where
  "signalRecord =
     JObj [(''proverb'', JArr [stepOf ''WETH'' ''USDC'' ''SWAP'' ''AMPLIFIER'',
                               stepOf ''USDC'' ''WETH'' ''SWAP'' ''MIRROR'']),
           (''meta'', JObj [(''audit_pass'', JBool True)]),
           (''cascadeDepth'', JNum 1)]"

definition failedRecord :: json where
  "failedRecord =
     JObj [(''proverb'', JArr [stepOf ''WETH'' ''USDC'' ''SWAP'' ''AMPLIFIER'',
                               stepOf ''USDC'' ''WETH'' ''SWAP'' ''MIRROR'']),
           (''meta'', JObj [(''audit_pass'', JBool False)]),
           (''cascadeDepth'', JNum 1)]"

definition signalRuntime :: runtime where
  "signalRuntime = tableRuntime [(''signal-1'', signalRecord), (''signal-2'', failedRecord)]"

definition signalFiles :: files where
  "signalFiles = [jamPath ''0xsignal-1'' \<mapsto> ''signal-1'', jamPath ''0xsignal-2'' \<mapsto> ''signal-2'',
                  jamPath ''0xsignal-3'' \<mapsto> ''not json'']"

definition signalConfig :: config where
  "signalConfig =
     \<lparr> YOUR_EMITTER = ''0xAbC1'', VAULT_ADDRESS = ''0xF00d'', MAX_GAS_PRICE = 20000000,
       ENABLE_RECURSIVE_SIGNALS = False \<rparr>"

definition swapOk :: dexEnv where
  "swapOk =
     \<lparr> d_prepared = True, d_send = Some ''0xbait'', d_receipt = Some (100, 5000000),
       d_mirrorBalance = Some 1000, d_amountsOut = None, d_bundleBuilt = True,
       d_bundleResponse = Some True, d_bundleWait = Some 0, d_finalBalance = True,
       d_logWritten = True \<rparr>"

definition signalEvent :: signalEnv where
  "signalEvent =
     \<lparr> e_now = 1699968060000,
       e_getTransaction = Inr (Some \<lparr> tx_from = ''0xabc1'', tx_to = Some ''0xf00d'',
                                       tx_data = ''0x'' \<rparr>),
       e_parseTransaction = Inr (Some ''emitSignal''),
       e_gasPrice = Inr 5000000,
       e_getBalance = True,
       e_dex = (\<lambda>i. swapOk),
       e_swapReceipt = Some (85000, 5000000),
       e_walletBalance = Some 0,
       e_transferReady = True,
       e_bridge = (\<lambda>i. False) \<rparr>"

text \<open>
  \<open>unverified\<close>: what the store answers for the hash does not pass the guard of the
  handler. The file of the hash is missing, or it is not JSON (\<open>retrieve\<close> throws),
  or the record has no \<open>meta\<close>, or \<open>meta.audit_pass\<close> is \<open>false\<close> or missing (or
  another falsy value).
\<close>

definition unverified :: "runtime \<Rightarrow> files \<Rightarrow> string \<Rightarrow> bool" where
  "unverified rt fs hash =
     (case retrieve rt fs hash of Inl err \<Rightarrow> True | Inr jamData \<Rightarrow> \<not> auditVerified jamData)"


section \<open>Properties of the Signal Store\<close>

lemma map_of_setProp: "map_of (setProp k v kvs) = (map_of kvs)(k \<mapsto> v)"
  by (induction kvs) (auto simp: fun_eq_iff)

lemma map_of_js_assign: "map_of (js_assign target src) = map_of target ++ map_of (rev src)"
  unfolding js_assign_def
proof (induction src arbitrary: target)
  case Nil
  show ?case by simp
next
  case (Cons p src)
  obtain k v where p: "p = (k, v)" by (cases p)
  have "map_of (foldl (\<lambda>acc (k, v). setProp k v acc) (setProp k v target) src)
        = map_of (setProp k v target) ++ map_of (rev src)"
    by (rule Cons.IH)
  then show ?case
    by (simp add: p map_of_setProp fun_eq_iff map_add_def split: option.splits)
qed

lemma js_assign_unnamed:
  "k \<notin> fst ` set src \<Longrightarrow> map_of (js_assign target src) k = map_of target k"
proof -
  assume "k \<notin> fst ` set src"
  then have "map_of (rev src) k = None"
    by (simp add: map_of_eq_None_iff)
  then show ?thesis
    by (simp add: map_of_js_assign map_add_def)
qed

lemma js_assign_named:
  "k \<in> fst ` set src \<Longrightarrow> map_of (js_assign target src) k = map_of (rev src) k"
proof -
  assume "k \<in> fst ` set src"
  then have "map_of (rev src) k \<noteq> None"
    by (simp add: map_of_eq_None_iff)
  then show ?thesis
    by (auto simp: map_of_js_assign map_add_def split: option.splits)
qed

lemma retrieve_store:
  "JSON_parse rt (JSON_stringify_indent2 rt record) = Some record \<Longrightarrow>
     retrieve rt (store rt fs hash record) hash = Inr (Some record)"
  by (simp add: retrieve_def store_def)

text \<open>
  C9. Retrieving a hash immediately after storing a record under it returns the record
  that was stored, for every hash and every record that the JSON codec round-trips
  (a JSON-serialisable record); the persisted text \<open>t\<close> then satisfies
  \<open>serialize (deserialize t) = t\<close>.
\<close>

theorem retrieve_after_store:
  assumes "JSON_parse rt (JSON_stringify_indent2 rt record) = Some record"
  shows "retrieve rt (store rt fs hash record) hash = Inr (Some record)
       \<and> (\<exists>t. store rt fs hash record (jamPath hash) = Some t
              \<and> map_option (JSON_stringify_indent2 rt) (JSON_parse rt t) = Some t)"
  using assms by (simp add: retrieve_def store_def)


theorem retrieve_after_store_witness:
  "JSON_parse demoRuntime (JSON_stringify_indent2 demoRuntime demoRecord) = Some demoRecord
   \<and> retrieve demoRuntime (store demoRuntime Map.empty ''0xa1'' demoRecord) ''0xa1'' = Inr (Some demoRecord)"
proof -
  have h: "JSON_parse demoRuntime (JSON_stringify_indent2 demoRuntime demoRecord) = Some demoRecord"
    by (simp add: demoRuntime_def tableRuntime_def demoRecord_def demoMetaMerged_def
        demoTopologyMerged_def)
  show ?thesis
    using h retrieve_after_store [OF h, of Map.empty "''0xa1''"] by simp
qed

text \<open>
  C6 (as stated): no update ever changes a stored record's \<open>meta\<close>. This fails.
  The merge copies every property of the partial update, so an update that
  names \<open>meta\<close> replaces it: after storing \<open>demoRecord\<close> and updating it with
  \<open>{meta: {audit_pass: false}}\<close> the stored record has the new \<open>meta\<close>.
\<close>

theorem update_overwrites_meta_counterexample:
  "retrieve demoRuntime
     (snd (update demoRuntime (store demoRuntime Map.empty ''0xa1'' demoRecord) ''0xa1'' demoMetaUpdate))
     ''0xa1'' = Inr (Some demoMetaMerged)
   \<and> getProp ''meta'' demoMetaMerged \<noteq> getProp ''meta'' demoRecord"
  by (simp add: update_def retrieve_def store_def demoRuntime_def tableRuntime_def demoRecord_def
      demoMetaMerged_def demoTopologyMerged_def demoMetaUpdate_def js_assign_def jamPath_def)

text \<open>
  C6 (amended). If no record is stored under the hash, \<open>update\<close> returns absent and
  changes nothing. If a record (an object) is stored, \<open>update\<close> returns the shallow
  merge and writes it back under the same hash: every property named by the partial
  update takes the update's value, every property it does not name (so \<open>proverb\<close> and
  \<open>meta\<close> whenever the update does not name them) keeps the stored value, and the
  files of all other paths are unchanged.
\<close>

theorem update_merges_named_fields:
  assumes "update rt fs hash updates = (r, fs')"
  shows "(retrieve rt fs hash = Inr None \<longrightarrow> r = Inr None \<and> fs' = fs)
       \<and> (\<forall>kvs. retrieve rt fs hash = Inr (Some (JObj kvs)) \<longrightarrow>
            (\<exists>merged. r = Inr (Some (JObj merged))
               \<and> fs' = store rt fs hash (JObj merged)
               \<and> (\<forall>k. k \<notin> fst ` set (spread updates) \<longrightarrow> map_of merged k = map_of kvs k)
               \<and> (\<forall>k. k \<in> fst ` set (spread updates) \<longrightarrow>
                      map_of merged k = map_of (rev (spread updates)) k)))
       \<and> (\<forall>p. p \<noteq> jamPath hash \<longrightarrow> fs' p = fs p)"
proof (intro conjI allI impI)
  assume "retrieve rt fs hash = Inr None"
  with assms show "r = Inr None" by (simp add: update_def)
next
  assume "retrieve rt fs hash = Inr None"
  with assms show "fs' = fs" by (simp add: update_def)
next
  fix kvs
  assume ex: "retrieve rt fs hash = Inr (Some (JObj kvs))"
  let ?merged = "js_assign kvs (spread updates)"
  from assms ex have "r = Inr (Some (JObj ?merged))" and "fs' = store rt fs hash (JObj ?merged)"
    by (simp_all add: update_def Let_def)
  then show "\<exists>merged. r = Inr (Some (JObj merged))
               \<and> fs' = store rt fs hash (JObj merged)
               \<and> (\<forall>k. k \<notin> fst ` set (spread updates) \<longrightarrow> map_of merged k = map_of kvs k)
               \<and> (\<forall>k. k \<in> fst ` set (spread updates) \<longrightarrow>
                      map_of merged k = map_of (rev (spread updates)) k)"
    using js_assign_unnamed js_assign_named by blast
next
  fix p
  assume "p \<noteq> jamPath hash"
  with assms show "fs' p = fs p"
    by (auto simp: update_def store_def Let_def split: sum.splits if_splits)
qed

theorem update_merges_named_fields_witness:
  "update demoRuntime (store demoRuntime Map.empty ''0xa1'' demoRecord) ''0xa1'' demoTopologyUpdate
     = (Inr (Some demoTopologyMerged),
        store demoRuntime (store demoRuntime Map.empty ''0xa1'' demoRecord) ''0xa1'' demoTopologyMerged)
   \<and> getProp ''meta'' demoTopologyMerged = getProp ''meta'' demoRecord
   \<and> getProp ''proverb'' demoTopologyMerged = getProp ''proverb'' demoRecord
   \<and> store demoRuntime (store demoRuntime Map.empty ''0xa1'' demoRecord) ''0xa1'' demoTopologyMerged
        (jamPath ''0xb2'')
       = store demoRuntime Map.empty ''0xa1'' demoRecord (jamPath ''0xb2'')"
proof -
  let ?fs = "store demoRuntime Map.empty ''0xa1'' demoRecord"
  have u: "update demoRuntime ?fs ''0xa1'' demoTopologyUpdate
           = (Inr (Some demoTopologyMerged), store demoRuntime ?fs ''0xa1'' demoTopologyMerged)"
    by (simp add: update_def retrieve_def store_def demoRuntime_def tableRuntime_def demoRecord_def
        demoMetaMerged_def demoTopologyMerged_def demoTopologyUpdate_def js_assign_def jamPath_def)
  have p: "jamPath ''0xb2'' \<noteq> jamPath ''0xa1''"
    by (simp add: jamPath_def)
  from update_merges_named_fields [OF u]
  have "\<forall>p. p \<noteq> jamPath ''0xa1'' \<longrightarrow> store demoRuntime ?fs ''0xa1'' demoTopologyMerged p = ?fs p"
    by blast
  with p have frame: "store demoRuntime ?fs ''0xa1'' demoTopologyMerged (jamPath ''0xb2'')
                      = ?fs (jamPath ''0xb2'')"
    by blast
  have unnamed: "getProp ''meta'' demoTopologyMerged = getProp ''meta'' demoRecord"
    "getProp ''proverb'' demoTopologyMerged = getProp ''proverb'' demoRecord"
    by (simp_all add: demoTopologyMerged_def demoRecord_def)
  from u frame unnamed show ?thesis by blast
qed


section \<open>The pattern selector\<close>


lemma hd_sort_key_first:
  assumes "xs \<noteq> []"
  shows "hd (sort_key f xs) = hd (filter (\<lambda>y. f y = f (hd (sort_key f xs))) xs)"
proof -
  let ?ys = "sort_key f xs"
  let ?k = "f (hd ?ys)"
  have ne: "?ys \<noteq> []" using assms by (metis length_sort length_0_conv)
  have "filter (\<lambda>y. f y = ?k) ?ys = filter (\<lambda>y. f y = ?k) xs"
    by (rule sort_key_stable)
  moreover have "hd (filter (\<lambda>y. f y = ?k) ?ys) = hd ?ys"
    using ne by (cases ?ys) auto
  ultimately show ?thesis by simp
qed



lemma select_first:
  assumes "patternScore now (ps p) = patternScore now (ps (selectOptimalPattern now ps))"
  shows "patternIndex (selectOptimalPattern now ps) \<le> patternIndex p"
proof -
  let ?xs = "map (\<lambda>p. (p, patternScore now (ps p))) declaredPatterns"
  let ?f = "\<lambda>(p :: pattern, score :: real). - score"
  let ?h = "hd (sort_key ?f ?xs)"
  have ne: "?xs \<noteq> []" by (simp add: declaredPatterns_def)
  have sel: "selectOptimalPattern now ps = fst ?h" by (simp add: selectOptimalPattern_def Let_def)
  have "?h \<in> set ?xs"
    using ne by (metis hd_in_set length_0_conv length_sort set_sort)
  then have hs: "snd ?h = patternScore now (ps (fst ?h))" by auto
  have first: "?h = hd (filter (\<lambda>y. ?f y = ?f ?h) ?xs)" by (rule hd_sort_key_first [OF ne])
  have k: "?f ?h = - patternScore now (ps (fst ?h))" using hs by (simp add: case_prod_beta)
  have eq: "patternScore now (ps p) = patternScore now (ps (fst ?h))" using assms sel by simp
  show ?thesis
    unfolding sel
    using first eq unfolding k
    by (cases p; cases "fst ?h") (auto simp: declaredPatterns_def split: if_splits)
qed

lemma select_uniform:
  assumes eq: "\<forall>q. ps q = ps CLASSIC_ARBITRAGE"
  shows "selectOptimalPattern now ps = CLASSIC_ARBITRAGE"
proof -
  from eq have "patternScore now (ps CLASSIC_ARBITRAGE)
                = patternScore now (ps (selectOptimalPattern now ps))" by metis
  then have "patternIndex (selectOptimalPattern now ps) \<le> patternIndex CLASSIC_ARBITRAGE"
    by (rule select_first)
  then show ?thesis by (cases "selectOptimalPattern now ps") simp_all
qed





section \<open>The resonance of a built record\<close>

lemma multiplier_cases:
  "getConsensusMultiplier now \<in> {PHI_SQUARED, PHI, PHI_INVERSE, 1 / PHI_SQUARED, 1}"
  by (simp add: getConsensusMultiplier_def Let_def)

lemma multiplier_bounds: "0 < getConsensusMultiplier now \<and> getConsensusMultiplier now \<le> PHI_SQUARED"
  using multiplier_cases [of now]
  by (auto simp: PHI_def PHI_INVERSE_def PHI_SQUARED_def)

lemma foldl_weighted_nonneg:
  fixes acc :: real
  assumes "0 \<le> acc" "\<forall>(x, i) \<in> set ps. 0 \<le> x"
  shows "0 \<le> foldl (\<lambda>acc (intensity, idx). acc + intensity * (real (idx + 1) / real n)) acc ps"
  using assms
proof (induction ps arbitrary: acc)
  case Nil
  then show ?case by simp
next
  case (Cons p ps)
  obtain x i where p: "p = (x, i)" by (cases p)
  from Cons.prems have "0 \<le> x" by (simp add: p)
  then have "0 \<le> acc + x * (real (i + 1) / real n)" using Cons.prems(1) by simp
  moreover from Cons.prems have "\<forall>(x, i) \<in> set ps. 0 \<le> x" by simp
  ultimately show ?case using Cons.IH by (simp add: p)
qed

lemma magnitude_nonneg:
  assumes "\<forall>x \<in> set (intensities v). 0 \<le> x"
  shows "0 \<le> calculateVectorMagnitude v"
proof -
  have "\<forall>(x, i) \<in> set (zip (intensities v) [0 ..< length (intensities v)]). 0 \<le> x"
    using assms by (auto dest: set_zip_leftD)
  then have "0 \<le> foldl (\<lambda>acc (intensity, idx). acc + intensity * (real (idx + 1) / real (length (intensities v))))
                  0 (zip (intensities v) [0 ..< length (intensities v)])"
    by (intro foldl_weighted_nonneg) simp_all
  then show ?thesis by (simp add: calculateVectorMagnitude_def Let_def)
qed

lemma successRate_nonneg: "0 \<le> getPatternSuccessRate ps p"
  by (simp add: getPatternSuccessRate_def Let_def)

lemma baseResonance_pos: "0 < baseResonance p"
  by (cases p) (simp_all add: PHI_def PHI_INVERSE_def PHI_SQUARED_def)

lemma adjustedConfidence_bounds:
  assumes "0 \<le> sr" "0 \<le> mag"
  shows "0 \<le> adjustedConfidence p sr missed mag \<and> adjustedConfidence p sr missed mag \<le> 0.99"
proof -
  have "0 \<le> baseResonance p * (0.5 + sr * 0.5)"
    using baseResonance_pos [of p] assms(1) by simp
  then have "0 \<le> baseResonance p * (0.5 + sr * 0.5) + real missed * 0.1 + mag * 0.05"
    using assms(2) by simp
  then show ?thesis unfolding adjustedConfidence_def by (auto simp: min_def)
qed

lemma adaptiveResonance_bounds:
  assumes "0 \<le> sr" "0 \<le> mag"
  shows "0 \<le> adaptiveResonance p sr missed mag (getConsensusMultiplier now)
       \<and> adaptiveResonance p sr missed mag (getConsensusMultiplier now) \<le> 0.99 * PHI_SQUARED"
proof -
  let ?c = "adjustedConfidence p sr missed mag"
  let ?m = "getConsensusMultiplier now"
  have c: "0 \<le> ?c" "?c \<le> 0.99" using adjustedConfidence_bounds [OF assms] by simp_all
  have m: "0 < ?m" "?m \<le> PHI_SQUARED" using multiplier_bounds by simp_all
  have "?c * ?m \<le> 0.99 * PHI_SQUARED"
    using c m by (intro mult_mono) simp_all
  moreover have "0 \<le> ?c * ?m" using c m by simp
  ultimately show ?thesis by (simp add: adaptiveResonance_def)
qed

lemma map_of_definedFields_skip:
  "k \<noteq> k' \<Longrightarrow> map_of (definedFields ((k', v) # kvs)) k = map_of (definedFields kvs) k"
  by (cases v) simp_all

lemma buildJam_resonance:
  "getProp ''resonance'' (buildJam rt e s analysis hooks parentJam vc) =
     Some (JNum (adaptiveResonance
        (selectOptimalPattern (t_build e) (patternSuccess (metrics s)))
        (getPatternSuccessRate (patternSuccess (metrics s))
           (selectOptimalPattern (t_build e) (patternSuccess (metrics s))))
        (missedEmissions s)
        (calculateVectorMagnitude (missedEmissionsVector s))
        (getConsensusMultiplier (t_build e))))"
  by (simp add: buildJam_def Let_def)

lemma buildJam_cascadeDepth:
  "getProp ''cascadeDepth'' (buildJam rt e s analysis hooks parentJam vc) =
     Some (nextCascadeDepth rt (lastHash s) parentJam)"
  by (simp add: buildJam_def Let_def)

lemma buildJam_vectorClock:
  "optProp ''vectorClock'' (getProp ''recursiveTopology'' (buildJam rt e s analysis hooks parentJam vc))
     = Some vc"
  by (simp add: buildJam_def Let_def)

lemma jamMeta_audit_pass:
  "getProp ''audit_pass'' (jamMeta rt e s analysis hooks p r) = Some (JBool True)"
  by (simp add: jamMeta_def objectOf_def Let_def map_of_definedFields_skip)

lemma jamMeta_pattern_type:
  "getProp ''pattern_type'' (jamMeta rt e s analysis hooks p r) = Some (JStr (patternKey p))"
  by (simp add: jamMeta_def objectOf_def Let_def map_of_definedFields_skip)

lemma buildJam_meta:
  "getProp ''meta'' (buildJam rt e s analysis hooks parentJam vc) =
     Some (jamMeta rt e s analysis hooks
        (selectOptimalPattern (t_build e) (patternSuccess (metrics s)))
        (adaptiveResonance
        (selectOptimalPattern (t_build e) (patternSuccess (metrics s)))
        (getPatternSuccessRate (patternSuccess (metrics s))
           (selectOptimalPattern (t_build e) (patternSuccess (metrics s))))
        (missedEmissions s)
        (calculateVectorMagnitude (missedEmissionsVector s))
        (getConsensusMultiplier (t_build e))))"
  by (simp add: buildJam_def Let_def)


lemma frame_refl: "frame s s" by (simp add: frame_def)
lemma frame_trans: "frame s s1 \<Longrightarrow> frame s1 s2 \<Longrightarrow> frame s s2" by (simp add: frame_def)

lemma frame_bumps:
  "frame s (bumpTotalAnalyses s)" "frame s (bumpAuditFails s)" "frame s (bumpAuditPasses s)"
  "frame s (markPatternUsed p t s)"
  by (simp_all add: frame_def bumpTotalAnalyses_def bumpAuditFails_def bumpAuditPasses_def
      markPatternUsed_def)

lemma analyzeAttempt_frame:
  "analyzeAttempt rt e n s = (r, s') \<Longrightarrow> frame s s'"
  by (auto simp: analyzeAttempt_def bumpAuditFails_def bumpAuditPasses_def markPatternUsed_def
      frame_def Let_def split: sum.splits json.splits if_splits)

lemma analyzeAttempt_Some:
  assumes "analyzeAttempt rt e n s = (Inr (Some (jam, hash)), s')"
  shows "\<exists>s1 analysis hooks parentJam vc.
           frame s s1
         \<and> generateVectorClock rt (jams s) (lastHash s) = Inr vc
         \<and> retrieveParent rt (jams s) (lastHash s) = Inr parentJam
         \<and> jam = buildJam rt e s1 analysis hooks parentJam vc
         \<and> hash = keccak256 rt (JSON_stringify rt jam)"
proof -
  have f: "frame s (bumpAuditPasses s)" by (rule frame_bumps)
  have j: "jams (bumpAuditPasses s) = jams s" "lastHash (bumpAuditPasses s) = lastHash s"
    by (simp_all add: bumpAuditPasses_def)
  from assms show ?thesis
    unfolding analyzeAttempt_def Let_def j
    by (auto split: sum.splits json.splits if_splits intro: f)
qed

lemma analyzeAndGenerateJam_frame:
  "analyzeAndGenerateJam rt e n s = (r, s') \<Longrightarrow> frame s s'"
proof (induction rt e n s arbitrary: r s' rule: analyzeAndGenerateJam.induct)
  case (1 rt e retryCount s)
  obtain a s1 where at: "analyzeAttempt rt e retryCount (bumpTotalAnalyses s) = (a, s1)"
    by (cases "analyzeAttempt rt e retryCount (bumpTotalAnalyses s)")
  have f1: "frame s s1"
    using frame_trans [OF frame_bumps(1) analyzeAttempt_frame [OF at]] .
  show ?case
  proof (cases a)
    case (Inr result)
    with "1.prems" at f1 show ?thesis
      by (simp add: analyzeAndGenerateJam.simps [of rt e retryCount s])
  next
    case (Inl err)
    show ?thesis
    proof (cases "retryCount < 3")
      case True
      with "1.prems" at Inl have "analyzeAndGenerateJam rt e (retryCount + 1) s1 = (r, s')"
        by (simp add: analyzeAndGenerateJam.simps [of rt e retryCount s])
      from "1.IH" [OF at [symmetric] Inl True this] have "frame s1 s'" .
      with f1 show ?thesis by (rule frame_trans)
    next
      case False
      with "1.prems" at Inl have "s' = bumpAuditFails s1"
        by (simp add: analyzeAndGenerateJam.simps [of rt e retryCount s])
      with f1 show ?thesis using frame_bumps(2) frame_trans by blast
    qed
  qed
qed

lemma analyzeAndGenerateJam_Some:
  "analyzeAndGenerateJam rt e n s = (Some (jam, hash), s') \<Longrightarrow>
     \<exists>s1 analysis hooks parentJam vc.
           frame s s1
         \<and> generateVectorClock rt (jams s) (lastHash s) = Inr vc
         \<and> retrieveParent rt (jams s) (lastHash s) = Inr parentJam
         \<and> jam = buildJam rt e s1 analysis hooks parentJam vc
         \<and> hash = keccak256 rt (JSON_stringify rt jam)"
proof (induction rt e n s arbitrary: s' rule: analyzeAndGenerateJam.induct)
  case (1 rt e retryCount s)
  obtain a s1 where at: "analyzeAttempt rt e retryCount (bumpTotalAnalyses s) = (a, s1)"
    by (cases "analyzeAttempt rt e retryCount (bumpTotalAnalyses s)")
  have f0: "frame s (bumpTotalAnalyses s)" by (rule frame_bumps)
  have f1: "frame s s1"
    using frame_trans [OF f0 analyzeAttempt_frame [OF at]] .
  show ?case
  proof (cases a)
    case (Inr result)
    with "1.prems" at have "analyzeAttempt rt e retryCount (bumpTotalAnalyses s)
                            = (Inr (Some (jam, hash)), s1)"
      by (simp add: analyzeAndGenerateJam.simps [of rt e retryCount s])
    from analyzeAttempt_Some [OF this] f0 show ?thesis
      by (auto simp: frame_def)
  next
    case (Inl err)
    show ?thesis
    proof (cases "retryCount < 3")
      case True
      with "1.prems" at Inl
      have "analyzeAndGenerateJam rt e (retryCount + 1) s1 = (Some (jam, hash), s')"
        by (simp add: analyzeAndGenerateJam.simps [of rt e retryCount s])
      from "1.IH" [OF at [symmetric] Inl True this] f1 show ?thesis
        by (auto simp: frame_def)
    next
      case False
      with "1.prems" at Inl show ?thesis
        by (simp add: analyzeAndGenerateJam.simps [of rt e retryCount s])
    qed
  qed
qed

text \<open>
  C3 (amended). For every record that \<^verbatim>\<open>analyzeAndGenerateJam\<close> builds, in a state whose
  recorded intensities are not negative, the stored resonance is
  \<open>c * consensusMultiplier\<close> where the adjusted confidence \<open>c\<close> lies in \<open>[0, 0.99]\<close>;
  the resonance itself lies in \<open>[0, 0.99 * PHI_SQUARED]\<close>.
\<close>

theorem built_resonance_bounds:
  assumes "analyzeAndGenerateJam rt e n s = (Some (jam, hash), s')"
      and "\<forall>x \<in> set (intensities (missedEmissionsVector s)). 0 \<le> x"
  shows "\<exists>c. getProp ''resonance'' jam = Some (JNum (c * getConsensusMultiplier (t_build e)))
           \<and> 0 \<le> c \<and> c \<le> 0.99
           \<and> 0 \<le> c * getConsensusMultiplier (t_build e)
           \<and> c * getConsensusMultiplier (t_build e) \<le> 0.99 * PHI_SQUARED"
proof -
  from analyzeAndGenerateJam_Some [OF assms(1)]
  obtain s1 analysis hooks parentJam vc where
    f: "frame s s1" and j: "jam = buildJam rt e s1 analysis hooks parentJam vc"
    by blast
  let ?p = "selectOptimalPattern (t_build e) (patternSuccess (metrics s1))"
  let ?sr = "getPatternSuccessRate (patternSuccess (metrics s1)) ?p"
  let ?mag = "calculateVectorMagnitude (missedEmissionsVector s1)"
  let ?c = "adjustedConfidence ?p ?sr (missedEmissions s1) ?mag"
  have v: "missedEmissionsVector s1 = missedEmissionsVector s" using f by (simp add: frame_def)
  have sr: "0 \<le> ?sr" by (rule successRate_nonneg)
  have mag: "0 \<le> ?mag" using assms(2) v by (simp add: magnitude_nonneg)
  have r: "getProp ''resonance'' jam = Some (JNum (?c * getConsensusMultiplier (t_build e)))"
    unfolding j buildJam_resonance adaptiveResonance_def ..
  from adjustedConfidence_bounds [OF sr mag] adaptiveResonance_bounds [OF sr mag] r
  show ?thesis unfolding adaptiveResonance_def by blast
qed



lemma minDistance_aligned: "getMinDistanceToConsensusWindow 1699968060000 = Some 0"
  by code_simp

lemma multiplier_aligned: "getConsensusMultiplier 1699968060000 = PHI_SQUARED"
  by (simp add: getConsensusMultiplier_def minDistance_aligned)

lemma select_initial: "selectOptimalPattern t (\<lambda>p. initialStats) = CLASSIC_ARBITRAGE"
  by (rule select_uniform) simp

section \<open>The cycle of the Strategist\<close>

lemma runCycles_busy: "isEmitting s \<Longrightarrow> runCycles rt es s = (s, [])"
  by (induction es) (simp_all add: detectAndEmit_def)

text \<open>
  C10. If a cycle passes its timing checks and \<^verbatim>\<open>analyzeAndGenerateJam\<close> returns
  \<open>null\<close>, then \<^verbatim>\<open>detectAndEmit\<close> returns with the busy flag \<open>isEmitting\<close> set, without
  a store write or a submission; and from that state every later sequence of
  invocations returns at the guard: the state does not change and nothing is written
  or submitted.
\<close>

theorem busy_flag_stays_set_after_null_analysis:
  assumes "\<not> isEmitting s" and "timingDecision e s = Proceed"
      and "fst (analyzeAndGenerateJam rt e 0 (s\<lparr>isEmitting := True\<rparr>)) = None"
  shows "isEmitting (fst (detectAndEmit rt e s))
       \<and> snd (detectAndEmit rt e s) = []
       \<and> jams (fst (detectAndEmit rt e s)) = jams s
       \<and> (\<forall>es. runCycles rt es (fst (detectAndEmit rt e s)) = (fst (detectAndEmit rt e s), []))"
proof -
  obtain r s1 where a: "analyzeAndGenerateJam rt e 0 (s\<lparr>isEmitting := True\<rparr>) = (r, s1)"
    by (cases "analyzeAndGenerateJam rt e 0 (s\<lparr>isEmitting := True\<rparr>)")
  with assms(3) have r: "r = None" by simp
  from analyzeAndGenerateJam_frame [OF a]
  have f: "isEmitting s1" "jams s1 = jams s" by (simp_all add: frame_def)
  have d: "detectAndEmit rt e s = (s1, [])"
    using assms(1,2) a r by (simp add: detectAndEmit_def emitCycle_def)
  show ?thesis using d f runCycles_busy by simp
qed

lemma attempt_audit_fail:
  assumes "\<forall>n a. analyses e n = Inr a \<longrightarrow> \<not> truthy (getProp ''audit_pass'' a)"
  shows "fst (analyzeAttempt rt e n s) = Inr None \<or> (\<exists>err. fst (analyzeAttempt rt e n s) = Inl err)"
proof (cases "analyses e n")
  case (Inl err)
  then show ?thesis by (simp add: analyzeAttempt_def)
next
  case (Inr a)
  with assms have "\<not> truthy (getProp ''audit_pass'' a)" by blast
  with Inr show ?thesis by (cases a) (simp_all add: analyzeAttempt_def)
qed

lemma analysis_audit_fail:
  assumes "\<forall>n a. analyses e n = Inr a \<longrightarrow> \<not> truthy (getProp ''audit_pass'' a)"
  shows "fst (analyzeAndGenerateJam rt e n s) = None"
  using assms
proof (induction rt e n s rule: analyzeAndGenerateJam.induct)
  case (1 rt e retryCount s)
  obtain a s1 where at: "analyzeAttempt rt e retryCount (bumpTotalAnalyses s) = (a, s1)"
    by (cases "analyzeAttempt rt e retryCount (bumpTotalAnalyses s)")
  from attempt_audit_fail [OF "1.prems", of rt retryCount "bumpTotalAnalyses s"] at
  consider "a = Inr None" | err where "a = Inl err" by auto
  then show ?case
  proof cases
    case 1
    with at show ?thesis by (simp add: analyzeAndGenerateJam.simps [of rt e retryCount s])
  next
    case 2
    show ?thesis
    proof (cases "retryCount < 3")
      case True
      from "1.IH" [OF at [symmetric] 2 True "1.prems"] at 2 True show ?thesis
        by (simp add: analyzeAndGenerateJam.simps [of rt e retryCount s])
    next
      case False
      with at 2 show ?thesis by (simp add: analyzeAndGenerateJam.simps [of rt e retryCount s])
    qed
  qed
qed

lemma strategist_audit_gate:
  assumes "\<forall>n a. analyses e n = Inr a \<longrightarrow> \<not> truthy (getProp ''audit_pass'' a)"
  shows "snd (detectAndEmit rt e s) = [] \<and> jams (fst (detectAndEmit rt e s)) = jams s"
proof (cases "isEmitting s")
  case True
  then show ?thesis by (simp add: detectAndEmit_def)
next
  case False
  obtain r s1 where a: "analyzeAndGenerateJam rt e 0 (s\<lparr>isEmitting := True\<rparr>) = (r, s1)"
    by (cases "analyzeAndGenerateJam rt e 0 (s\<lparr>isEmitting := True\<rparr>)")
  with analysis_audit_fail [OF assms, of rt 0 "s\<lparr>isEmitting := True\<rparr>"] have r: "r = None" by simp
  from analyzeAndGenerateJam_frame [OF a] have f: "jams s1 = jams s" by (simp add: frame_def)
  show ?thesis
    using False a r f
    by (cases "timingDecision e s") (simp_all add: detectAndEmit_def emitCycle_def recordMiss_def)
qed

lemma submitCall_noParent:
  "submitCall p h = (if noParent p then EmitSignal h else EmitRecursiveSignal h (the p))"
  by (cases p) (auto simp: submitCall_def noParent_def truthyHash_def)

lemma detectAndEmit_trace:
  "snd (detectAndEmit rt e s) =
     (if isEmitting s \<or> timingDecision e s \<noteq> Proceed then []
      else case fst (analyzeAndGenerateJam rt e 0 (s\<lparr>isEmitting := True\<rparr>)) of
             None \<Rightarrow> []
           | Some (jam, hash) \<Rightarrow>
               if \<not> feeDataOk e then [StoreWrite hash]
               else if \<not> emitOk e \<or> \<not> waitOk e \<or> bsvEcho e = None
               then [StoreWrite hash, submitCall (lastHash s) hash]
               else [StoreWrite hash, submitCall (lastHash s) hash, BridgeToBSV hash])"
proof (cases "isEmitting s \<or> timingDecision e s \<noteq> Proceed")
  case True
  then show ?thesis
    by (cases "timingDecision e s") (auto simp: detectAndEmit_def)
next
  case False
  obtain r s1 where a: "analyzeAndGenerateJam rt e 0 (s\<lparr>isEmitting := True\<rparr>) = (r, s1)"
    by (cases "analyzeAndGenerateJam rt e 0 (s\<lparr>isEmitting := True\<rparr>)")
  from analyzeAndGenerateJam_frame [OF a] have l: "lastHash s1 = lastHash s" by (simp add: frame_def)
  show ?thesis
  proof (cases r)
    case None
    with False a show ?thesis by (simp add: detectAndEmit_def emitCycle_def)
  next
    case (Some jh)
    obtain jam hash where jh: "jh = (jam, hash)" by (cases jh)
    from False a Some jh l show ?thesis
      by (auto simp: detectAndEmit_def emitCycle_def Let_def split: option.splits)
  qed
qed

text \<open>
  C5. In every cycle: the root entry point \<open>emitSignal\<close> is called only when there is
  no parent hash (none, the empty string, or the zero hash); the recursive entry point
  \<open>emitRecursiveSignal\<close> is called only when there is a parent hash, and its second
  argument is that hash; whenever the cycle reaches the submission (a record was built
  and the fee data were read), the vault calls of the cycle are exactly one call:
  \<open>emitSignal hash\<close> without a parent and \<open>emitRecursiveSignal hash parentHash\<close> with
  one, \<open>hash\<close> being the hash of the record built in this cycle; no cycle makes more
  than one vault call.
\<close>

theorem submission_entry_point:
  "(\<forall>h. EmitSignal h \<in> set (snd (detectAndEmit rt e s)) \<longrightarrow> noParent (lastHash s))
   \<and> (\<forall>h p. EmitRecursiveSignal h p \<in> set (snd (detectAndEmit rt e s))
          \<longrightarrow> \<not> noParent (lastHash s) \<and> lastHash s = Some p)
   \<and> (\<forall>jam hash s1.
         \<not> isEmitting s \<and> timingDecision e s = Proceed \<and> feeDataOk e
         \<and> analyzeAndGenerateJam rt e 0 (s\<lparr>isEmitting := True\<rparr>) = (Some (jam, hash), s1)
         \<longrightarrow> filter isVaultCall (snd (detectAndEmit rt e s))
               = [if noParent (lastHash s) then EmitSignal hash
                  else EmitRecursiveSignal hash (the (lastHash s))])
   \<and> length (filter isVaultCall (snd (detectAndEmit rt e s))) \<le> 1"
proof -
  have np: "\<not> noParent (lastHash s) \<Longrightarrow> lastHash s = Some (the (lastHash s))"
    by (cases "lastHash s") (simp_all add: noParent_def)
  show ?thesis
    unfolding detectAndEmit_trace
    by (auto simp: submitCall_noParent dest: np split: if_splits option.splits)
qed

lemma generateVectorClock_object:
  "generateVectorClock rt fs p = Inr vc \<Longrightarrow> \<exists>c. vc = JObj c"
  by (auto simp: generateVectorClock_def Let_def split: if_splits sum.splits)

lemma generateVectorClock_no_parent:
  "retrieveParent rt fs p = Inr None \<Longrightarrow>
     generateVectorClock rt fs p = Inr (JObj [(''eth'', JNum 1), (''bsv'', JNum 0)])"
  by (auto simp: generateVectorClock_def retrieveParent_def Let_def split: if_splits)

lemma generateVectorClock_parent:
  assumes "truthyHash p" "retrieve rt fs (the p) = Inr (Some parent)"
      and "getProp ''recursiveTopology'' parent = Some (JObj topology)"
      and "map_of topology ''vectorClock'' = Some (JObj c)"
  shows "generateVectorClock rt fs p = Inr (JObj (setProp ''eth'' (jsIncrement rt (map_of c ''eth'')) c))"
proof -
  from assms(3) obtain kvs where parent: "parent = JObj kvs" by (cases parent) simp_all
  show ?thesis
    using assms by (simp add: generateVectorClock_def Let_def parent)
qed

lemma buildJam_clockEth:
  "clockEth (buildJam rt e s analysis hooks parentJam (JObj c)) = map_of c ''eth''"
  by (simp add: clockEth_def buildJam_def Let_def)

lemma buildJam_topology:
  "getProp ''recursiveTopology'' (buildJam rt e s analysis hooks parentJam vc)
     = Some (JObj [(''eth'', JNum 1), (''bsv'', JNum 0), (''vectorClock'', vc)])"
  by (simp add: buildJam_def Let_def)

lemma emittedRecord_Some:
  assumes "emittedRecord rt e s = Some (jam, hash)"
  shows "\<exists>s1. \<not> isEmitting s \<and> timingDecision e s = Proceed
           \<and> analyzeAndGenerateJam rt e 0 (s\<lparr>isEmitting := True\<rparr>) = (Some (jam, hash), s1)
           \<and> feeDataOk e \<and> emitOk e \<and> waitOk e"
  using assms
  by (auto simp: emittedRecord_def split: if_splits option.splits prod.splits)

lemma emitted_post_state:
  assumes "emittedRecord rt e s = Some (jam, hash)"
  shows "lastHash (fst (detectAndEmit rt e s)) = Some hash
       \<and> jams (fst (detectAndEmit rt e s)) = store rt (jams s) hash jam"
proof -
  from emittedRecord_Some [OF assms] obtain s1 where
    h: "\<not> isEmitting s" "timingDecision e s = Proceed"
       "analyzeAndGenerateJam rt e 0 (s\<lparr>isEmitting := True\<rparr>) = (Some (jam, hash), s1)"
       "feeDataOk e" "emitOk e" "waitOk e"
    by blast
  from analyzeAndGenerateJam_frame [OF h(3)] have f: "jams s1 = jams s" by (simp add: frame_def)
  show ?thesis
    using h f
    by (auto simp: detectAndEmit_def emitCycle_def emissionSucceeded_def markPatternSuccess_def
        emissionFailed_def Let_def split: option.splits)
qed

lemma emitted_is_built:
  assumes "emittedRecord rt e s = Some (jam, hash)"
  shows "\<exists>s1 analysis hooks parentJam c.
           lastHash s1 = lastHash s
         \<and> generateVectorClock rt (jams s) (lastHash s) = Inr (JObj c)
         \<and> retrieveParent rt (jams s) (lastHash s) = Inr parentJam
         \<and> jam = buildJam rt e s1 analysis hooks parentJam (JObj c)
         \<and> hash = keccak256 rt (JSON_stringify rt jam)"
proof -
  from emittedRecord_Some [OF assms] obtain s0 where
    a: "analyzeAndGenerateJam rt e 0 (s\<lparr>isEmitting := True\<rparr>) = (Some (jam, hash), s0)"
    by blast
  from analyzeAndGenerateJam_Some [OF a] obtain s1 analysis hooks parentJam vc where
    b: "frame (s\<lparr>isEmitting := True\<rparr>) s1"
       "generateVectorClock rt (jams s) (lastHash s) = Inr vc"
       "retrieveParent rt (jams s) (lastHash s) = Inr parentJam"
       "jam = buildJam rt e s1 analysis hooks parentJam vc"
       "hash = keccak256 rt (JSON_stringify rt jam)"
    by auto
  from generateVectorClock_object [OF b(2)] obtain c where c: "vc = JObj c" by blast
  from b(1) have "lastHash s1 = lastHash s" by (simp add: frame_def)
  with b c show ?thesis by blast
qed

lemma chain_first:
  assumes "emittedRecord rt e s = Some (jam, hash)"
      and "retrieveParent rt (jams s) (lastHash s) = Inr None"
  shows "getProp ''cascadeDepth'' jam = Some (JNum 1) \<and> clockEth jam = Some (JNum 1)"
proof -
  from emitted_is_built [OF assms(1)] obtain s1 analysis hooks parentJam c where
    b: "lastHash s1 = lastHash s"
       "generateVectorClock rt (jams s) (lastHash s) = Inr (JObj c)"
       "retrieveParent rt (jams s) (lastHash s) = Inr parentJam"
       "jam = buildJam rt e s1 analysis hooks parentJam (JObj c)"
    by blast
  from b(3) assms(2) have p: "parentJam = None" by simp
  from generateVectorClock_no_parent [OF assms(2)] b(2)
  have c: "c = [(''eth'', JNum 1), (''bsv'', JNum 0)]" by simp
  have "nextCascadeDepth rt (lastHash s) None = JNum 1"
    by (simp add: nextCascadeDepth_def orElse_def)
  then show ?thesis
    by (simp add: b(4) buildJam_cascadeDepth buildJam_clockEth b(1) p c)
qed

lemma chain_step:
  assumes e1: "emittedRecord rt e s = Some (jam, hash)"
      and rt: "JSON_parse rt (JSON_stringify_indent2 rt jam) = Some jam"
      and ne: "keccak256 rt (JSON_stringify rt jam) \<noteq> []"
      and e2: "emittedRecord rt e2 (fst (detectAndEmit rt e s)) = Some (jam2, hash2)"
  shows "childOf jam jam2"
proof -
  let ?s' = "fst (detectAndEmit rt e s)"
  from emitted_is_built [OF e1] obtain s1 analysis hooks parentJam c where
    b: "jam = buildJam rt e s1 analysis hooks parentJam (JObj c)"
       "hash = keccak256 rt (JSON_stringify rt jam)"
    by blast
  from emitted_post_state [OF e1]
  have post: "lastHash ?s' = Some hash" "jams ?s' = store rt (jams s) hash jam" by simp_all
  have th: "truthyHash (Some hash)" using ne b(2) by (simp add: truthyHash_def)
  have r: "retrieve rt (jams ?s') hash = Inr (Some jam)"
    unfolding post by (rule retrieve_store [OF rt])
  from emitted_is_built [OF e2] obtain s2 analysis2 hooks2 parentJam2 c2 where
    b2: "lastHash s2 = lastHash ?s'"
        "generateVectorClock rt (jams ?s') (lastHash ?s') = Inr (JObj c2)"
        "retrieveParent rt (jams ?s') (lastHash ?s') = Inr parentJam2"
        "jam2 = buildJam rt e2 s2 analysis2 hooks2 parentJam2 (JObj c2)"
    by blast
  have p2: "parentJam2 = Some jam"
    using b2(3) r th by (simp add: retrieveParent_def post)
  have top: "getProp ''recursiveTopology'' jam
             = Some (JObj [(''eth'', JNum 1), (''bsv'', JNum 0), (''vectorClock'', JObj c)])"
    unfolding b(1) by (rule buildJam_topology)
  have "generateVectorClock rt (jams ?s') (Some hash)
        = Inr (JObj (setProp ''eth'' (jsIncrement rt (map_of c ''eth'')) c))"
    by (rule generateVectorClock_parent [OF th _ top]) (simp_all add: r)
  with b2(2) have c2: "c2 = setProp ''eth'' (jsIncrement rt (map_of c ''eth'')) c"
    by (simp add: post)
  have eth1: "clockEth jam = map_of c ''eth''"
    unfolding b(1) by (rule buildJam_clockEth)
  have eth2: "clockEth jam2 = Some (jsIncrement rt (map_of c ''eth''))"
    unfolding b2(4) buildJam_clockEth c2 by (simp add: map_of_setProp)
  have jobj: "\<exists>kvs. jam = JObj kvs" unfolding b(1) by (simp add: buildJam_def Let_def)
  have d2: "getProp ''cascadeDepth'' jam2
            = Some (jsPlusOne rt (orElse (getProp ''cascadeDepth'' jam) (JNum 0)))"
    using jobj unfolding b2(4) buildJam_cascadeDepth b2(1) post p2
    by (auto simp: nextCascadeDepth_def th)
  show ?thesis
    unfolding childOf_def
    by (auto simp: d2 eth1 eth2 orElse_def)
qed

lemma chainOf_Cons:
  assumes "chainOf rt (e # es) s = Some js"
  shows "\<exists>jam hash js'. emittedRecord rt e s = Some (jam, hash) \<and> js = jam # js'
           \<and> chainOf rt es (fst (detectAndEmit rt e s)) = Some js'"
  using assms by (auto split: option.splits)

lemma chain_successively:
  assumes "chainOf rt es s = Some js"
      and "\<forall>j \<in> set (butlast js). JSON_parse rt (JSON_stringify_indent2 rt j) = Some j
                                  \<and> keccak256 rt (JSON_stringify rt j) \<noteq> []"
  shows "successively childOf js"
  using assms
proof (induction es arbitrary: s js)
  case Nil
  then show ?case by simp
next
  case (Cons e es)
  from chainOf_Cons [OF Cons.prems(1)] obtain jam hash js' where
    h: "emittedRecord rt e s = Some (jam, hash)" "js = jam # js'"
       "chainOf rt es (fst (detectAndEmit rt e s)) = Some js'"
    by blast
  show ?case
  proof (cases js')
    case Nil
    with h show ?thesis by simp
  next
    case (Cons jam2 js'')
    with h(3) obtain e2 es2 where es: "es = e2 # es2" by (cases es) auto
    from chainOf_Cons [OF h(3) [unfolded es]] Cons obtain hash2 where
      e2: "emittedRecord rt e2 (fst (detectAndEmit rt e s)) = Some (jam2, hash2)"
      by auto
    from Cons.prems(2) h(2) Cons
    have p: "JSON_parse rt (JSON_stringify_indent2 rt jam) = Some jam"
            "keccak256 rt (JSON_stringify rt jam) \<noteq> []"
      and rest: "\<forall>j \<in> set (butlast js'). JSON_parse rt (JSON_stringify_indent2 rt j) = Some j
                                  \<and> keccak256 rt (JSON_stringify rt j) \<noteq> []"
      by simp_all
    have "childOf jam jam2" by (rule chain_step [OF h(1) p e2])
    moreover have "successively childOf js'" by (rule Cons.IH [OF h(3) rest])
    ultimately show ?thesis using h(2) Cons by simp
  qed
qed

lemma chain_numbering:
  assumes "successively childOf js" "i < length js"
      and "getProp ''cascadeDepth'' (hd js) = Some (JNum d)" "clockEth (hd js) = Some (JNum k)"
  shows "getProp ''cascadeDepth'' (js ! i) = Some (JNum (d + real i))
       \<and> clockEth (js ! i) = Some (JNum (k + real i))"
  using assms
proof (induction js arbitrary: i d k)
  case Nil
  then show ?case by simp
next
  case (Cons j js)
  show ?case
  proof (cases i)
    case 0
    with Cons.prems show ?thesis by simp
  next
    case (Suc n)
    with Cons.prems(2) have n: "n < length js" by simp
    then have ne: "js \<noteq> []" by auto
    from Cons.prems(1) ne have c: "childOf j (hd js)" and s: "successively childOf js"
      by (simp_all add: successively_Cons)
    from c Cons.prems(3,4)
    have "getProp ''cascadeDepth'' (hd js) = Some (JNum (d + 1))"
         "clockEth (hd js) = Some (JNum (k + 1))"
      by (simp_all add: childOf_def)
    from Cons.IH [OF s n this] show ?thesis by (simp add: Suc add.assoc add.commute)
  qed
qed

text \<open>
  C4. For every chain of records of successive cycles that ran to the confirmed
  submission, where the JSON codec round-trips each record that becomes a parent and
  its hash is a non-empty string: each record is the child of the one before, that is
  its \<open>cascadeDepth\<close> is the parent's plus 1 and its own-chain counter
  \<open>vectorClock.eth\<close> is the parent's plus 1; and where the first cycle has no
  resolvable parent (no parent hash, or no record stored under it), the \<open>i\<close>-th record
  (from 0) has \<open>cascadeDepth = i + 1\<close> and \<open>vectorClock.eth = i + 1\<close>, so the first has
  depth 1.
\<close>

theorem chain_depth_and_clock:
  assumes "chainOf rt es s = Some js"
      and "\<forall>j \<in> set (butlast js). JSON_parse rt (JSON_stringify_indent2 rt j) = Some j
                                  \<and> keccak256 rt (JSON_stringify rt j) \<noteq> []"
  shows "successively childOf js
       \<and> (retrieveParent rt (jams s) (lastHash s) = Inr None \<longrightarrow>
            (\<forall>i < length js. getProp ''cascadeDepth'' (js ! i) = Some (JNum (1 + real i))
                            \<and> clockEth (js ! i) = Some (JNum (1 + real i))))"
proof -
  have succ: "successively childOf js" by (rule chain_successively [OF assms])
  have "getProp ''cascadeDepth'' (js ! i) = Some (JNum (1 + real i))
      \<and> clockEth (js ! i) = Some (JNum (1 + real i))"
    if np: "retrieveParent rt (jams s) (lastHash s) = Inr None" and i: "i < length js" for i
  proof -
    from i obtain e es' where es: "es = e # es'" using assms(1) by (cases es) auto
    from chainOf_Cons [OF assms(1) [unfolded es]] obtain jam hash js' where
      h: "emittedRecord rt e s = Some (jam, hash)" "js = jam # js'"
      by blast
    from chain_first [OF h(1) np] h(2)
    have "getProp ''cascadeDepth'' (hd js) = Some (JNum 1)" "clockEth (hd js) = Some (JNum 1)"
      by simp_all
    from chain_numbering [OF succ i this] show ?thesis .
  qed
  with succ show ?thesis by blast
qed


section \<open>Two cycles run on concrete inputs\<close>

lemma generateVectorClock_total:
  "retrieveParent rt fs p = Inr x \<Longrightarrow> \<exists>vc. generateVectorClock rt fs p = Inr vc"
  by (auto simp: generateVectorClock_def retrieveParent_def Let_def split: if_splits)

lemma analysis_passes:
  assumes "analyses e n = Inr (JObj a)"
      and "truthy (map_of a ''audit_pass'')"
      and "map_of a ''bait_hooks'' = Some (JArr hooks)"
      and "retrieveParent rt (jams s) (lastHash s) = Inr parentJam"
      and "generateVectorClock rt (jams s) (lastHash s) = Inr vc"
  shows "fst (analyzeAndGenerateJam rt e n s) =
           Some (buildJam rt e (bumpAuditPasses (bumpTotalAnalyses s)) (JObj a) hooks parentJam vc,
                 keccak256 rt (JSON_stringify rt
                   (buildJam rt e (bumpAuditPasses (bumpTotalAnalyses s)) (JObj a) hooks parentJam vc)))"
proof -
  have j: "jams (bumpAuditPasses (bumpTotalAnalyses s)) = jams s"
          "lastHash (bumpAuditPasses (bumpTotalAnalyses s)) = lastHash s"
    by (simp_all add: bumpAuditPasses_def bumpTotalAnalyses_def)
  have "fst (analyzeAttempt rt e n (bumpTotalAnalyses s)) =
          Inr (Some (buildJam rt e (bumpAuditPasses (bumpTotalAnalyses s)) (JObj a) hooks parentJam vc,
                 keccak256 rt (JSON_stringify rt
                   (buildJam rt e (bumpAuditPasses (bumpTotalAnalyses s)) (JObj a) hooks parentJam vc))))"
    using assms by (simp add: analyzeAttempt_def j Let_def)
  moreover obtain x s1 where "analyzeAttempt rt e n (bumpTotalAnalyses s) = (x, s1)"
    by (cases "analyzeAttempt rt e n (bumpTotalAnalyses s)")
  ultimately show ?thesis
    by (simp add: analyzeAndGenerateJam.simps [of rt e n s])
qed

lemma timing_aligned:
  assumes "isConsensusTime (t_start e)" "isSubIntervalAt (t_start e) \<or> lastEmissionTime s = 0"
  shows "timingDecision e s = Proceed"
  using assms by (auto simp: timingDecision_def Let_def)

lemma aligned_times:
  "isConsensusTime 1699968060000" "\<not> isSubIntervalAt 1699968060000"
  "isConsensusTime 1699968180000" "isSubIntervalAt 1699968180000"
  by code_simp+

lemma jsPlusOne_formatting:
  "toString rt = toString rt' \<Longrightarrow> jsPlusOne rt v = jsPlusOne rt' v"
  by (cases v) simp_all

lemma buildJam_formatting:
  assumes "toString rt = toString rt'" "toFixed3 rt = toFixed3 rt'"
  shows "buildJam rt e s a h p vc = buildJam rt' e s a h p vc"
  using assms jsPlusOne_formatting [OF assms(1)]
  by (simp add: buildJam_def jamMeta_def compressRecursiveState_def stateSignatureOf_def
      nextCascadeDepth_def Let_def)

lemma tableRuntime_formatting:
  "toString (tableRuntime tab) = toString (tableRuntime [])"
  "toFixed3 (tableRuntime tab) = toFixed3 (tableRuntime [])"
  by (simp_all add: tableRuntime_def)

lemma genesis_no_parent:
  "retrieveParent rt (jams (genesisState\<lparr>isEmitting := True\<rparr>))
     (lastHash (genesisState\<lparr>isEmitting := True\<rparr>)) = Inr None"
  "retrieveParent rt (jams genesisState) (lastHash genesisState) = Inr None"
  by (simp_all add: retrieveParent_def genesisState_def initialStrategist_def truthyHash_def)

lemma genesis_analysis:
  "fst (analyzeAndGenerateJam chainRuntime alignedEnv 0 (genesisState\<lparr>isEmitting := True\<rparr>))
     = Some (genesisJam, ''0xjam-1'')"
proof -
  let ?s = "genesisState\<lparr>isEmitting := True\<rparr>"
  have b: "buildJam chainRuntime alignedEnv (bumpAuditPasses (bumpTotalAnalyses ?s))
             passingAnalysis genesisHooks None (JObj [(''eth'', JNum 1), (''bsv'', JNum 0)])
           = genesisJam"
    unfolding genesisJam_def chainRuntime_def
    by (rule buildJam_formatting) (simp_all add: tableRuntime_def)
  have h: "keccak256 chainRuntime (JSON_stringify chainRuntime genesisJam) = ''0xjam-1''"
    by (simp add: chainRuntime_def tableRuntime_def)
  have "fst (analyzeAndGenerateJam chainRuntime alignedEnv 0 ?s) =
           Some (buildJam chainRuntime alignedEnv (bumpAuditPasses (bumpTotalAnalyses ?s))
                   (JObj [(''address'', JStr ''0x4200000000000000000000000000000000000006''),
           (''bytecode_proof'', JStr ''0xbeef''),
           (''audit_pass'', JBool True),
           (''bait_hooks'', JArr genesisHooks),
           (''substrate_hash'', JStr ''0xbeef'')]) genesisHooks None
                   (JObj [(''eth'', JNum 1), (''bsv'', JNum 0)]),
                 keccak256 chainRuntime (JSON_stringify chainRuntime
                   (buildJam chainRuntime alignedEnv (bumpAuditPasses (bumpTotalAnalyses ?s))
                   (JObj [(''address'', JStr ''0x4200000000000000000000000000000000000006''),
           (''bytecode_proof'', JStr ''0xbeef''),
           (''audit_pass'', JBool True),
           (''bait_hooks'', JArr genesisHooks),
           (''substrate_hash'', JStr ''0xbeef'')]) genesisHooks None
                   (JObj [(''eth'', JNum 1), (''bsv'', JNum 0)]))))"
    by (rule analysis_passes [OF _ _ _ genesis_no_parent(1)
          generateVectorClock_no_parent [OF genesis_no_parent(1)]])
       (simp_all add: alignedEnv_def passingAnalysis_def genesisHooks_def)
  then show ?thesis
    using b h by (simp add: passingAnalysis_def genesisHooks_def)
qed

lemma genesis_timing: "timingDecision alignedEnv genesisState = Proceed"
  by (rule timing_aligned)
     (simp_all add: alignedEnv_def aligned_times genesisState_def initialStrategist_def)

lemma genesis_emitted:
  "emittedRecord chainRuntime alignedEnv genesisState = Some (genesisJam, ''0xjam-1'')"
proof -
  obtain r s1 where a: "analyzeAndGenerateJam chainRuntime alignedEnv 0
                          (genesisState\<lparr>isEmitting := True\<rparr>) = (r, s1)"
    by (cases "analyzeAndGenerateJam chainRuntime alignedEnv 0 (genesisState\<lparr>isEmitting := True\<rparr>)")
  with genesis_analysis have r: "r = Some (genesisJam, ''0xjam-1'')" by simp
  show ?thesis
    using genesis_timing a r
    by (simp add: emittedRecord_def genesisState_def initialStrategist_def alignedEnv_def)
qed

lemma emitted_not_busy:
  assumes "emittedRecord rt e s = Some (jam, hash)"
  shows "\<not> isEmitting (fst (detectAndEmit rt e s))"
proof -
  from emittedRecord_Some [OF assms] obtain s1 where
    h: "\<not> isEmitting s" "timingDecision e s = Proceed"
       "analyzeAndGenerateJam rt e 0 (s\<lparr>isEmitting := True\<rparr>) = (Some (jam, hash), s1)"
       "feeDataOk e" "emitOk e" "waitOk e"
    by blast
  then show ?thesis
    by (auto simp: detectAndEmit_def emitCycle_def emissionFailed_def Let_def split: option.splits)
qed

lemma genesis_roundtrip:
  "JSON_parse chainRuntime (JSON_stringify_indent2 chainRuntime genesisJam) = Some genesisJam"
  "keccak256 chainRuntime (JSON_stringify chainRuntime genesisJam) \<noteq> []"
  by (simp_all add: chainRuntime_def tableRuntime_def)

lemma afterGenesis_facts:
  "lastHash afterGenesis = Some ''0xjam-1''"
  "jams afterGenesis = store chainRuntime (jams genesisState) ''0xjam-1'' genesisJam"
  "\<not> isEmitting afterGenesis"
  using emitted_post_state [OF genesis_emitted] emitted_not_busy [OF genesis_emitted]
  by (simp_all add: afterGenesis_def)

lemma afterGenesis_parent:
  "retrieve chainRuntime (jams afterGenesis) ''0xjam-1'' = Inr (Some genesisJam)"
  unfolding afterGenesis_facts by (rule retrieve_store [OF genesis_roundtrip(1)])

lemma afterGenesis_retrieveParent:
  "retrieveParent chainRuntime (jams (afterGenesis\<lparr>isEmitting := True\<rparr>))
     (lastHash (afterGenesis\<lparr>isEmitting := True\<rparr>)) = Inr (Some genesisJam)"
  by (simp add: retrieveParent_def afterGenesis_facts(1) afterGenesis_parent truthyHash_def)

lemma afterGenesis_clock:
  "generateVectorClock chainRuntime (jams (afterGenesis\<lparr>isEmitting := True\<rparr>))
     (lastHash (afterGenesis\<lparr>isEmitting := True\<rparr>))
   = Inr (JObj [(''eth'', JNum 2), (''bsv'', JNum 0)])"
proof -
  have th: "truthyHash (Some ''0xjam-1'')" by (simp add: truthyHash_def)
  have top: "getProp ''recursiveTopology'' genesisJam
             = Some (JObj [(''eth'', JNum 1), (''bsv'', JNum 0),
                           (''vectorClock'', JObj [(''eth'', JNum 1), (''bsv'', JNum 0)])])"
    unfolding genesisJam_def by (rule buildJam_topology)
  have "generateVectorClock chainRuntime (jams afterGenesis) (Some ''0xjam-1'')
        = Inr (JObj (setProp ''eth''
             (jsIncrement chainRuntime (map_of [(''eth'', JNum 1), (''bsv'', JNum 0)] ''eth''))
             [(''eth'', JNum 1), (''bsv'', JNum 0)]))"
    by (rule generateVectorClock_parent [OF th _ top]) (simp_all add: afterGenesis_parent)
  then show ?thesis by (simp add: afterGenesis_facts(1))
qed

lemma child_analysis:
  "fst (analyzeAndGenerateJam chainRuntime childEnv 0 (afterGenesis\<lparr>isEmitting := True\<rparr>))
     = Some (childJam, keccak256 chainRuntime (JSON_stringify chainRuntime childJam))"
proof -
  have "fst (analyzeAndGenerateJam chainRuntime childEnv 0 (afterGenesis\<lparr>isEmitting := True\<rparr>)) =
           Some (buildJam chainRuntime childEnv
                   (bumpAuditPasses (bumpTotalAnalyses (afterGenesis\<lparr>isEmitting := True\<rparr>)))
                   (JObj [(''address'', JStr ''0x4200000000000000000000000000000000000006''),
           (''bytecode_proof'', JStr ''0xbeef''),
           (''audit_pass'', JBool True),
           (''bait_hooks'', JArr genesisHooks),
           (''substrate_hash'', JStr ''0xbeef'')]) genesisHooks (Some genesisJam)
                   (JObj [(''eth'', JNum 2), (''bsv'', JNum 0)]),
                 keccak256 chainRuntime (JSON_stringify chainRuntime
                   (buildJam chainRuntime childEnv
                   (bumpAuditPasses (bumpTotalAnalyses (afterGenesis\<lparr>isEmitting := True\<rparr>)))
                   (JObj [(''address'', JStr ''0x4200000000000000000000000000000000000006''),
           (''bytecode_proof'', JStr ''0xbeef''),
           (''audit_pass'', JBool True),
           (''bait_hooks'', JArr genesisHooks),
           (''substrate_hash'', JStr ''0xbeef'')]) genesisHooks (Some genesisJam)
                   (JObj [(''eth'', JNum 2), (''bsv'', JNum 0)]))))"
    by (rule analysis_passes [OF _ _ _ afterGenesis_retrieveParent afterGenesis_clock])
       (simp_all add: childEnv_def alignedEnv_def passingAnalysis_def genesisHooks_def)
  then show ?thesis
    by (simp add: childJam_def passingAnalysis_def genesisHooks_def)
qed

lemma child_timing: "timingDecision childEnv afterGenesis = Proceed"
  by (rule timing_aligned) (simp_all add: childEnv_def alignedEnv_def aligned_times)

lemma child_emitted:
  "emittedRecord chainRuntime childEnv afterGenesis
     = Some (childJam, keccak256 chainRuntime (JSON_stringify chainRuntime childJam))"
proof -
  obtain r s1 where a: "analyzeAndGenerateJam chainRuntime childEnv 0
                          (afterGenesis\<lparr>isEmitting := True\<rparr>) = (r, s1)"
    by (cases "analyzeAndGenerateJam chainRuntime childEnv 0 (afterGenesis\<lparr>isEmitting := True\<rparr>)")
  with child_analysis
  have r: "r = Some (childJam, keccak256 chainRuntime (JSON_stringify chainRuntime childJam))"
    by simp
  show ?thesis
    using child_timing a r afterGenesis_facts(3)
    by (simp add: emittedRecord_def childEnv_def alignedEnv_def)
qed

lemma demo_chain:
  "chainOf chainRuntime [alignedEnv, childEnv] genesisState = Some [genesisJam, childJam]"
  using genesis_emitted child_emitted by (simp add: afterGenesis_def)

theorem chain_depth_and_clock_witness:
  "chainOf chainRuntime [alignedEnv, childEnv] genesisState = Some [genesisJam, childJam]
   \<and> JSON_parse chainRuntime (JSON_stringify_indent2 chainRuntime genesisJam) = Some genesisJam
   \<and> keccak256 chainRuntime (JSON_stringify chainRuntime genesisJam) \<noteq> []
   \<and> retrieveParent chainRuntime (jams genesisState) (lastHash genesisState) = Inr None
   \<and> childOf genesisJam childJam
   \<and> getProp ''cascadeDepth'' genesisJam = Some (JNum 1) \<and> clockEth genesisJam = Some (JNum 1)
   \<and> getProp ''cascadeDepth'' childJam = Some (JNum 2) \<and> clockEth childJam = Some (JNum 2)"
proof -
  have hyp: "\<forall>j \<in> set (butlast [genesisJam, childJam]).
               JSON_parse chainRuntime (JSON_stringify_indent2 chainRuntime j) = Some j
             \<and> keccak256 chainRuntime (JSON_stringify chainRuntime j) \<noteq> []"
    using genesis_roundtrip by simp
  note t = chain_depth_and_clock [OF demo_chain hyp]
  from t have c: "childOf genesisJam childJam" by simp
  from t genesis_no_parent(2)
  have n: "\<forall>i < length [genesisJam, childJam].
             getProp ''cascadeDepth'' ([genesisJam, childJam] ! i) = Some (JNum (1 + real i))
           \<and> clockEth ([genesisJam, childJam] ! i) = Some (JNum (1 + real i))"
    by blast
  from n [rule_format, of 0] n [rule_format, of 1]
  have "getProp ''cascadeDepth'' genesisJam = Some (JNum 1)" "clockEth genesisJam = Some (JNum 1)"
       "getProp ''cascadeDepth'' childJam = Some (JNum 2)" "clockEth childJam = Some (JNum 2)"
    by simp_all
  with demo_chain genesis_roundtrip genesis_no_parent(2) c show ?thesis by simp
qed

lemma pair_of_fst: "fst p = a \<Longrightarrow> p = (a, snd p)"
  by (cases p) simp

theorem built_resonance_bounds_witness:
  "fst (analyzeAndGenerateJam chainRuntime alignedEnv 0 (genesisState\<lparr>isEmitting := True\<rparr>))
     = Some (genesisJam, ''0xjam-1'')
   \<and> intensities (missedEmissionsVector (genesisState\<lparr>isEmitting := True\<rparr>)) = []
   \<and> (\<exists>c. getProp ''resonance'' genesisJam
             = Some (JNum (c * getConsensusMultiplier (t_build alignedEnv)))
          \<and> 0 \<le> c \<and> c \<le> 0.99
          \<and> 0 \<le> c * getConsensusMultiplier (t_build alignedEnv)
          \<and> c * getConsensusMultiplier (t_build alignedEnv) \<le> 0.99 * PHI_SQUARED)"
proof -
  have h1: "analyzeAndGenerateJam chainRuntime alignedEnv 0 (genesisState\<lparr>isEmitting := True\<rparr>)
            = (Some (genesisJam, ''0xjam-1''),
               snd (analyzeAndGenerateJam chainRuntime alignedEnv 0 (genesisState\<lparr>isEmitting := True\<rparr>)))"
    by (rule pair_of_fst [OF genesis_analysis])
  have h0: "intensities (missedEmissionsVector (genesisState\<lparr>isEmitting := True\<rparr>)) = []"
    by (simp add: genesisState_def initialStrategist_def)
  then have h2: "\<forall>x \<in> set (intensities (missedEmissionsVector (genesisState\<lparr>isEmitting := True\<rparr>))). 0 \<le> x"
    by simp
  from built_resonance_bounds [OF h1 h2] genesis_analysis h0 show ?thesis by blast
qed

lemma genesis_resonance: "getProp ''resonance'' genesisJam = Some (JNum 2.59185364886239605)"
proof -
  let ?s = "bumpAuditPasses (bumpTotalAnalyses (genesisState\<lparr>isEmitting := True\<rparr>))"
  have p: "patternSuccess (metrics ?s) = (\<lambda>p. initialStats)"
    by (simp add: bumpAuditPasses_def bumpTotalAnalyses_def genesisState_def initialStrategist_def)
  have m: "missedEmissions ?s = 0"
    "missedEmissionsVector ?s = \<lparr> mv_count = 0, timestamps = [], intensities = [] \<rparr>"
    by (simp_all add: bumpAuditPasses_def bumpTotalAnalyses_def genesisState_def
        initialStrategist_def)
  have t: "t_build alignedEnv = 1699968060000" by (simp add: alignedEnv_def)
  have sr: "getPatternSuccessRate (\<lambda>p. initialStats) CLASSIC_ARBITRAGE = 0.5"
    by (simp add: getPatternSuccessRate_def initialStats_def)
  show ?thesis
    unfolding genesisJam_def
    by (simp add: buildJam_resonance p m t select_initial multiplier_aligned
        sr calculateVectorMagnitude_def
        adaptiveResonance_def adjustedConfidence_def PHI_def PHI_SQUARED_def)
qed

text \<open>
  C3 (as stated). The clamp to 0.99 is applied before the multiplication by the consensus
  multiplier. In the first cycle of a process, at 13:21 UTC (a consensus window, multiplier
  \<open>PHI_SQUARED\<close>), the selected pattern is CLASSIC_ARBITRAGE, the adjusted confidence is
  \<open>min 0.99 (PHI * 0.75) = 0.99\<close>, and the record stores the resonance
  \<open>0.99 * 2.618033988749895 = 2.59185364886239605\<close>, which is above 0.99.
\<close>

theorem resonance_above_bound_counterexample:
  "fst (analyzeAndGenerateJam chainRuntime alignedEnv 0 (genesisState\<lparr>isEmitting := True\<rparr>))
     = Some (genesisJam, ''0xjam-1'')
   \<and> getProp ''resonance'' genesisJam = Some (JNum 2.59185364886239605)
   \<and> \<not> (2.59185364886239605 \<le> (0.99 :: real))"
  using genesis_analysis genesis_resonance by simp

lemma failing_analysis:
  "fst (analyzeAndGenerateJam rt failingEnv n s) = None"
  by (rule analysis_audit_fail) (auto simp: failingEnv_def failingAnalysis_def)

lemma failing_timing: "timingDecision failingEnv genesisState = Proceed"
  by (rule timing_aligned)
     (simp_all add: failingEnv_def alignedEnv_def aligned_times genesisState_def
        initialStrategist_def)

theorem busy_flag_stays_set_after_null_analysis_witness:
  "\<not> isEmitting genesisState
   \<and> timingDecision failingEnv genesisState = Proceed
   \<and> fst (analyzeAndGenerateJam chainRuntime failingEnv 0 (genesisState\<lparr>isEmitting := True\<rparr>)) = None
   \<and> isEmitting (fst (detectAndEmit chainRuntime failingEnv genesisState))
   \<and> snd (detectAndEmit chainRuntime failingEnv genesisState) = []
   \<and> runCycles chainRuntime [alignedEnv, childEnv]
        (fst (detectAndEmit chainRuntime failingEnv genesisState))
       = (fst (detectAndEmit chainRuntime failingEnv genesisState), [])"
proof -
  have h1: "\<not> isEmitting genesisState"
    by (simp add: genesisState_def initialStrategist_def)
  from busy_flag_stays_set_after_null_analysis [OF h1 failing_timing failing_analysis]
       h1 failing_timing failing_analysis
  show ?thesis by blast
qed

lemma ZeroHash_length: "length ZeroHash = 66"
  by (simp add: ZeroHash_def)

lemma demo_hash_not_zero: "''0xjam-1'' \<noteq> ZeroHash"
proof
  assume "''0xjam-1'' = ZeroHash"
  then have "length ''0xjam-1'' = length ZeroHash" by (rule arg_cong)
  then show False by (simp add: ZeroHash_length)
qed

theorem submission_entry_point_witness:
  "noParent (lastHash genesisState)
   \<and> filter isVaultCall (snd (detectAndEmit chainRuntime alignedEnv genesisState))
       = [EmitSignal ''0xjam-1'']
   \<and> \<not> noParent (lastHash afterGenesis)
   \<and> filter isVaultCall (snd (detectAndEmit chainRuntime childEnv afterGenesis))
       = [EmitRecursiveSignal (keccak256 chainRuntime (JSON_stringify chainRuntime childJam))
            ''0xjam-1'']"
proof -
  have g: "\<not> isEmitting genesisState \<and> timingDecision alignedEnv genesisState = Proceed
           \<and> feeDataOk alignedEnv
           \<and> analyzeAndGenerateJam chainRuntime alignedEnv 0 (genesisState\<lparr>isEmitting := True\<rparr>)
             = (Some (genesisJam, ''0xjam-1''),
                snd (analyzeAndGenerateJam chainRuntime alignedEnv 0 (genesisState\<lparr>isEmitting := True\<rparr>)))"
    using genesis_timing pair_of_fst [OF genesis_analysis]
    by (simp add: genesisState_def initialStrategist_def alignedEnv_def)
  have c: "\<not> isEmitting afterGenesis \<and> timingDecision childEnv afterGenesis = Proceed
           \<and> feeDataOk childEnv
           \<and> analyzeAndGenerateJam chainRuntime childEnv 0 (afterGenesis\<lparr>isEmitting := True\<rparr>)
             = (Some (childJam, keccak256 chainRuntime (JSON_stringify chainRuntime childJam)),
                snd (analyzeAndGenerateJam chainRuntime childEnv 0 (afterGenesis\<lparr>isEmitting := True\<rparr>)))"
    using child_timing pair_of_fst [OF child_analysis] afterGenesis_facts(3)
    by (simp add: childEnv_def alignedEnv_def)
  have ng: "noParent (lastHash genesisState)"
    by (simp add: noParent_def genesisState_def initialStrategist_def)
  have nc: "\<not> noParent (lastHash afterGenesis)"
    using demo_hash_not_zero by (simp add: noParent_def afterGenesis_facts(1))
  note tg = submission_entry_point [of chainRuntime alignedEnv genesisState,
      THEN conjunct2, THEN conjunct2, THEN conjunct1, rule_format, OF g]
  note tc = submission_entry_point [of chainRuntime childEnv afterGenesis,
      THEN conjunct2, THEN conjunct2, THEN conjunct1, rule_format, OF c]
  from tg ng have 1: "filter isVaultCall (snd (detectAndEmit chainRuntime alignedEnv genesisState))
             = [EmitSignal ''0xjam-1'']"
    by simp
  from tc nc have 2: "filter isVaultCall (snd (detectAndEmit chainRuntime childEnv afterGenesis))
       = [EmitRecursiveSignal (keccak256 chainRuntime (JSON_stringify chainRuntime childJam))
            (the (lastHash afterGenesis))]"
    by simp
  from 1 2 ng nc show ?thesis by (simp add: afterGenesis_facts(1))
qed


section \<open>The rate limit of the gist updater\<close>


lemma requestLoop_successes:
  "successes (snd (requestLoop e k i recorded)) \<le> 1"
  by (induction e k i recorded rule: requestLoop.induct)
     (auto simp: successes_def split: prod.splits response.splits)

lemma answer_time:
  "\<forall>i. t0 \<le> snd (g_answers e i) \<Longrightarrow> g_answers e i = (r, t) \<Longrightarrow> t0 \<le> t"
  by (metis snd_conv)

lemma requestLoop_last:
  assumes "\<forall>i. t0 \<le> snd (g_answers e i)"
  shows "Status200 \<in> set (snd (requestLoop e k i recorded)) \<Longrightarrow> t0 \<le> fst (requestLoop e k i recorded)"
  using assms
  by (induction e k i recorded rule: requestLoop.induct)
     (auto split: prod.splits response.splits dest: answer_time)

lemma updateGist_idle: "updateGist rt e b = (b', tr) \<Longrightarrow> \<not> isUpdating b \<Longrightarrow> \<not> isUpdating b'"
  by (auto simp: updateGist_def split: if_splits option.splits prod.splits)

lemma updateGist_skip:
  "g_now e - lastUpdateTime b < MIN_UPDATE_INTERVAL \<Longrightarrow> updateGist rt e b = (b, [])"
  by (simp add: updateGist_def)

lemma runUpdates_skip:
  assumes "\<forall>e \<in> set es. g_now e - lastUpdateTime b < MIN_UPDATE_INTERVAL"
  shows "runUpdates rt es b = (b, [])"
  using assms by (induction es) (simp_all add: updateGist_skip)

lemma updateGist_successes:
  "successes (snd (updateGist rt e b)) \<le> 1"
  using requestLoop_successes [of e GIST_MAX_RETRIES 0 "lastUpdateTime b"]
  by (auto simp: updateGist_def successes_def split: option.splits prod.splits)

lemma updateGist_success_time:
  assumes "\<forall>i. t0 \<le> snd (g_answers e i)" "Status200 \<in> set (snd (updateGist rt e b))"
  shows "t0 \<le> lastUpdateTime (fst (updateGist rt e b))"
  using assms requestLoop_last [OF assms(1), of GIST_MAX_RETRIES 0 "lastUpdateTime b"]
  by (auto simp: updateGist_def split: if_splits option.splits prod.splits)

lemma at_most_one_success:
  assumes "withinSpan t0 es"
  shows "successes (snd (runUpdates rt es b)) \<le> 1"
  using assms
proof (induction es arbitrary: b)
  case Nil
  then show ?case by (simp add: successes_def)
next
  case (Cons e es)
  obtain b1 tr1 where u: "updateGist rt e b = (b1, tr1)" by (cases "updateGist rt e b")
  obtain b2 tr2 where r: "runUpdates rt es b1 = (b2, tr2)" by (cases "runUpdates rt es b1")
  from Cons.prems have span: "withinSpan t0 es"
    and e: "t0 \<le> g_now e" "\<forall>i. g_now e \<le> snd (g_answers e i)"
    by (simp_all add: withinSpan_def)
  show ?case
  proof (cases "Status200 \<in> set tr1")
    case True
    from e have "\<forall>i. t0 \<le> snd (g_answers e i)" by (meson order_trans)
    from updateGist_success_time [OF this, of rt b] True u
    have "t0 \<le> lastUpdateTime b1" by simp
    with span have "\<forall>e' \<in> set es. g_now e' - lastUpdateTime b1 < MIN_UPDATE_INTERVAL"
      by (auto simp: withinSpan_def)
    from runUpdates_skip [OF this, of rt] r have "tr2 = []" by simp
    with u r updateGist_successes [of rt e b] show ?thesis by simp
  next
    case False
    then have "successes tr1 = 0" by (auto simp: successes_def filter_empty_conv)
    moreover from Cons.IH [OF span, of b1] r have "successes tr2 \<le> 1" by simp
    ultimately show ?thesis using u r by (simp add: successes_def)
  qed
qed

lemma updateGist_first_success:
  assumes "\<not> isUpdating b" "MIN_UPDATE_INTERVAL \<le> g_now e - lastUpdateTime b"
    "g_file e = Some jamContent" "trim jamContent \<noteq> []" "JSON_parse rt jamContent \<noteq> None"
    "g_answers e 0 = (Status200, T)"
  shows "updateGist rt e b = (b\<lparr>isUpdating := False, lastUpdateTime := T\<rparr>, [Status200])"
  using assms by (simp add: updateGist_def GIST_MAX_RETRIES_def numeral_2_eq_2)

text \<open>
  C8 (amended). An invocation that finds an update in progress, or that starts less
  than the minimum interval after the recorded time, returns without a request and
  leaves the state as it is. Among the requests of any invocations \<open>us\<close> that happen
  one after the other in a span shorter than the minimum interval, at most one is
  answered with status 200. Where the first invocation is admitted, finds valid JSON
  in the file and its first request is answered with status 200 at time \<open>T\<close>, and
  every later invocation starts less than the minimum interval after \<open>T\<close>, the
  sequence makes exactly one request, and the recorded time is \<open>T\<close>.
\<close>

theorem updateGist_rate_limit:
  "(isUpdating b \<or> g_now e - lastUpdateTime b < MIN_UPDATE_INTERVAL
      \<longrightarrow> updateGist rt e b = (b, []))
   \<and> (withinSpan t0 us \<longrightarrow> successes (snd (runUpdates rt us b)) \<le> 1)
   \<and> (\<not> isUpdating b \<and> MIN_UPDATE_INTERVAL \<le> g_now e - lastUpdateTime b
        \<and> g_file e = Some jamContent \<and> trim jamContent \<noteq> []
        \<and> JSON_parse rt jamContent \<noteq> None
        \<and> g_answers e 0 = (Status200, T)
        \<and> (\<forall>e' \<in> set es. g_now e' - T < MIN_UPDATE_INTERVAL)
      \<longrightarrow> snd (runUpdates rt (e # es) b) = [Status200]
          \<and> lastUpdateTime (fst (runUpdates rt (e # es) b)) = T)"
proof (intro conjI impI)
  assume "isUpdating b \<or> g_now e - lastUpdateTime b < MIN_UPDATE_INTERVAL"
  then show "updateGist rt e b = (b, [])" by (auto simp: updateGist_def)
next
  assume "withinSpan t0 us"
  then show "successes (snd (runUpdates rt us b)) \<le> 1" by (rule at_most_one_success)
next
  assume h: "\<not> isUpdating b \<and> MIN_UPDATE_INTERVAL \<le> g_now e - lastUpdateTime b
        \<and> g_file e = Some jamContent \<and> trim jamContent \<noteq> []
        \<and> JSON_parse rt jamContent \<noteq> None
        \<and> g_answers e 0 = (Status200, T)
        \<and> (\<forall>e' \<in> set es. g_now e' - T < MIN_UPDATE_INTERVAL)"
  let ?b1 = "b\<lparr>isUpdating := False, lastUpdateTime := T\<rparr>"
  from h updateGist_first_success [of b e jamContent rt T]
  have u: "updateGist rt e b = (?b1, [Status200])" by blast
  from h have "\<forall>e' \<in> set es. g_now e' - lastUpdateTime ?b1 < MIN_UPDATE_INTERVAL" by simp
  from runUpdates_skip [OF this, of rt] have r: "runUpdates rt es ?b1 = (?b1, [])" .
  from u r show "snd (runUpdates rt (e # es) b) = [Status200]" by simp
  from u r show "lastUpdateTime (fst (runUpdates rt (e # es) b)) = T" by simp
qed

lemma trim_jam: "trim ''jam-1'' \<noteq> []"
  by (simp add: trim_def isSpace_def)

lemma parse_jam: "JSON_parse chainRuntime ''jam-1'' \<noteq> None"
  by (simp add: chainRuntime_def tableRuntime_def)

theorem updateGist_rate_limit_witness:
  "updateGist chainRuntime (laterUpdate 1700000001000)
       \<lparr> isUpdating = False, lastUpdateTime = 1700000000400 \<rparr>
     = (\<lparr> isUpdating = False, lastUpdateTime = 1700000000400 \<rparr>, [])
   \<and> successes (snd (runUpdates chainRuntime
         [firstUpdate, laterUpdate 1700000001000, laterUpdate 1700000599000] initialBridge)) \<le> 1
   \<and> snd (runUpdates chainRuntime
         [firstUpdate, laterUpdate 1700000001000, laterUpdate 1700000599000] initialBridge)
       = [Status200]
   \<and> lastUpdateTime (fst (runUpdates chainRuntime
         [firstUpdate, laterUpdate 1700000001000, laterUpdate 1700000599000] initialBridge))
       = 1700000000400"
proof -
  let ?b = "\<lparr> isUpdating = False, lastUpdateTime = 1700000000400 \<rparr>"
  let ?es = "[laterUpdate 1700000001000, laterUpdate 1700000599000]"
  have h1: "isUpdating ?b \<or> g_now (laterUpdate 1700000001000) - lastUpdateTime ?b
              < MIN_UPDATE_INTERVAL"
    by (simp add: laterUpdate_def MIN_UPDATE_INTERVAL_def)
  have h2: "withinSpan 1700000000000 (firstUpdate # ?es)"
    by (simp add: withinSpan_def firstUpdate_def laterUpdate_def MIN_UPDATE_INTERVAL_def)
  have h3: "\<not> isUpdating initialBridge
        \<and> MIN_UPDATE_INTERVAL \<le> g_now firstUpdate - lastUpdateTime initialBridge
        \<and> g_file firstUpdate = Some ''jam-1'' \<and> trim ''jam-1'' \<noteq> []
        \<and> JSON_parse chainRuntime ''jam-1'' \<noteq> None
        \<and> g_answers firstUpdate 0 = (Status200, 1700000000400)
        \<and> (\<forall>e' \<in> set ?es. g_now e' - 1700000000400 < MIN_UPDATE_INTERVAL)"
    using trim_jam parse_jam
    by (simp add: initialBridge_def firstUpdate_def laterUpdate_def MIN_UPDATE_INTERVAL_def)
  from updateGist_rate_limit [of ?b "laterUpdate 1700000001000" chainRuntime] h1
  have a: "updateGist chainRuntime (laterUpdate 1700000001000) ?b = (?b, [])"
    by blast
  from updateGist_rate_limit [of initialBridge firstUpdate chainRuntime
      1700000000000 "firstUpdate # ?es" "''jam-1''" 1700000000400 ?es] h2 h3
  have b: "successes (snd (runUpdates chainRuntime (firstUpdate # ?es) initialBridge)) \<le> 1"
    and c: "snd (runUpdates chainRuntime (firstUpdate # ?es) initialBridge) = [Status200]
           \<and> lastUpdateTime (fst (runUpdates chainRuntime (firstUpdate # ?es) initialBridge))
               = 1700000000400"
    by blast+
  from a b c show ?thesis by blast
qed

text \<open>
  C8 (as stated): any invocations within a span shorter than the minimum interval make
  exactly one push. This fails. Two invocations one minute apart whose requests are all
  answered with status 500: no time is recorded, both invocations are admitted, and
  four requests are made, none of them successful. With an unreadable file two such
  invocations make no request, whatever the service would answer.
\<close>

theorem updateGist_exactly_one_counterexample:
  "g_now (failingUpdate 1700000060000) - g_now (failingUpdate 1700000000000)
     < MIN_UPDATE_INTERVAL
   \<and> snd (runUpdates chainRuntime
          [failingUpdate 1700000000000, failingUpdate 1700000060000] initialBridge)
       = [OtherStatus, OtherStatus, OtherStatus, OtherStatus]
   \<and> snd (runUpdates chainRuntime
          [firstUpdate\<lparr>g_file := None\<rparr>,
           (laterUpdate 1700000060000)\<lparr>g_file := None\<rparr>] initialBridge)
       = []"
  using trim_jam parse_jam
  by (simp add: failingUpdate_def firstUpdate_def laterUpdate_def initialBridge_def updateGist_def
      MIN_UPDATE_INTERVAL_def GIST_MAX_RETRIES_def numeral_2_eq_2)


section \<open>The audit gate and repeated deliveries\<close>

lemma cascade_order: "getRecursiveDEXCascade g d = [UNISWAP_V3, ROCKETSWAP, AERODROME]"
  by (simp add: getRecursiveDEXCascade_def Let_def PHI_def PHI_SQUARED_def PHI_INVERSE_def)

lemma handler_audit_gate:
  assumes "unverified rt (jamFiles s) hash"
  shows "snd (handleSignal rt cfg e hash s) = []"
  using assms
  by (cases "checkTransaction cfg e")
     (auto simp: unverified_def handleSignal_def numeral_3_eq_3 amplification_def Let_def
           split: sum.splits prod.splits exit.splits)

text \<open>
  C1. Where every analysis of a Strategist cycle fails the audit (\<open>audit_pass\<close> false
  or missing), \<^verbatim>\<open>analyzeAndGenerateJam\<close> returns \<open>null\<close>, and the cycle writes nothing
  to the store and calls neither \<^verbatim>\<open>emitSignal\<close> nor \<^verbatim>\<open>emitRecursiveSignal\<close>. Where the
  store holds no verified record for a hash (the record is missing, is not JSON, has
  no \<open>meta\<close>, or its \<open>audit_pass\<close> is false or missing), \<^verbatim>\<open>handleSignal\<close> invokes
  no action for the hash: no swap, no bundle, no transfer, no echo, no signal.
\<close>

theorem audit_gating:
  "((\<forall>n a. analyses e n = Inr a \<longrightarrow> \<not> truthy (getProp ''audit_pass'' a))
      \<longrightarrow> fst (analyzeAndGenerateJam rt e 0 (s\<lparr>isEmitting := True\<rparr>)) = None
          \<and> snd (detectAndEmit rt e s) = []
          \<and> jams (fst (detectAndEmit rt e s)) = jams s)
   \<and> (unverified rt (jamFiles w) hash \<longrightarrow> snd (handleSignal rt cfg ev hash w) = [])"
proof (intro conjI impI)
  assume a: "\<forall>n a. analyses e n = Inr a \<longrightarrow> \<not> truthy (getProp ''audit_pass'' a)"
  from a show "fst (analyzeAndGenerateJam rt e 0 (s\<lparr>isEmitting := True\<rparr>)) = None"
    by (rule analysis_audit_fail)
  from strategist_audit_gate [OF a, of rt s]
  show "snd (detectAndEmit rt e s) = []" "jams (fst (detectAndEmit rt e s)) = jams s"
    by simp_all
next
  assume "unverified rt (jamFiles w) hash"
  then show "snd (handleSignal rt cfg ev hash w) = []" by (rule handler_audit_gate)
qed

lemma unverified_failed: "unverified signalRuntime signalFiles ''0xsignal-2''"
  by (simp add: unverified_def retrieve_def signalRuntime_def signalFiles_def tableRuntime_def
      jamPath_def auditVerified_def failedRecord_def)

lemma unverified_malformed: "unverified signalRuntime signalFiles ''0xsignal-3''"
  by (simp add: unverified_def retrieve_def signalRuntime_def signalFiles_def tableRuntime_def
      jamPath_def)

lemma unverified_missing: "unverified signalRuntime signalFiles ''0xsignal-4''"
  by (simp add: unverified_def retrieve_def signalRuntime_def signalFiles_def tableRuntime_def
      jamPath_def auditVerified_def)

theorem audit_gating_witness:
  "fst (analyzeAndGenerateJam signalRuntime failingEnv 0 (genesisState\<lparr>isEmitting := True\<rparr>)) = None
   \<and> snd (detectAndEmit signalRuntime failingEnv genesisState) = []
   \<and> jams (fst (detectAndEmit signalRuntime failingEnv genesisState)) = jams genesisState
   \<and> snd (handleSignal signalRuntime signalConfig signalEvent ''0xsignal-2''
            (initialAmplifier signalFiles)) = []
   \<and> snd (handleSignal signalRuntime signalConfig signalEvent ''0xsignal-3''
            (initialAmplifier signalFiles)) = []
   \<and> snd (handleSignal signalRuntime signalConfig signalEvent ''0xsignal-4''
            (initialAmplifier signalFiles)) = []"
proof -
  have a: "\<forall>n a. analyses failingEnv n = Inr a \<longrightarrow> \<not> truthy (getProp ''audit_pass'' a)"
    by (auto simp: failingEnv_def failingAnalysis_def)
  have f: "jamFiles (initialAmplifier signalFiles) = signalFiles"
    by (simp add: initialAmplifier_def)
  note u = unverified_failed unverified_malformed unverified_missing
  from audit_gating [of failingEnv signalRuntime genesisState "initialAmplifier signalFiles"
      "''0xsignal-2''" signalConfig signalEvent] a u f
  have 1: "fst (analyzeAndGenerateJam signalRuntime failingEnv 0 (genesisState\<lparr>isEmitting := True\<rparr>)) = None
   \<and> snd (detectAndEmit signalRuntime failingEnv genesisState) = []
   \<and> jams (fst (detectAndEmit signalRuntime failingEnv genesisState)) = jams genesisState
   \<and> snd (handleSignal signalRuntime signalConfig signalEvent ''0xsignal-2''
            (initialAmplifier signalFiles)) = []"
    by simp
  from audit_gating [of failingEnv signalRuntime genesisState "initialAmplifier signalFiles"
      "''0xsignal-3''" signalConfig signalEvent] u f
  have 2: "snd (handleSignal signalRuntime signalConfig signalEvent ''0xsignal-3''
            (initialAmplifier signalFiles)) = []"
    by simp
  from audit_gating [of failingEnv signalRuntime genesisState "initialAmplifier signalFiles"
      "''0xsignal-4''" signalConfig signalEvent] u f
  have 3: "snd (handleSignal signalRuntime signalConfig signalEvent ''0xsignal-4''
            (initialAmplifier signalFiles)) = []"
    by simp
  from 1 2 3 show ?thesis by blast
qed

text \<open>
  No pass of the DEX loop reaches \<^verbatim>\<open>wallet.sendTransaction\<close>: every pass fails, the
  loop ends with the exception after the last DEX (or without a transaction), and the
  handler invokes no action, whatever it observes.
\<close>

lemma dexAttempt_fails: "dexAttempt cfg d proverb hash dex = (Failed, [])"
  by (simp add: dexAttempt_def encodedData_def)







text \<open>
  The delivery of the verified record \<open>0xsignal-1\<close>, run on a concrete event: the
  handler passes the guards, tries the three DEXes, and ends in the handler of line
  1358 with the lock released and the state as it was.
\<close>

lemma amount_aligned: "calculateTradeAmount 1699968060000 0.9 5000000 = 4240000000000"
  by (simp add: calculateTradeAmount_def amplifierMultiplier_def minDistance_aligned formatGwei_def
      formatEther_def parseEtherFixed8_def Let_def round_def)

lemma check_event: "checkTransaction signalConfig signalEvent = Pass"
  by (simp add: checkTransaction_def signalEvent_def signalConfig_def toLowerCase_def Let_def)

lemma retrieve_signal:
  "retrieve signalRuntime signalFiles ''0xsignal-1'' = Inr (Some signalRecord)"
  by (simp add: retrieve_def signalRuntime_def signalFiles_def tableRuntime_def jamPath_def)

lemma signal_verified: "auditVerified (Some signalRecord)"
  by (simp add: auditVerified_def signalRecord_def)

lemma dexLoop_cascade:
  "dexLoop cfg e proverb hash (getRecursiveDEXCascade g d) (getRecursiveDEXCascade g d) 0
   = (AllFailed, [])"
  by (simp add: cascade_order dexAttempt_fails UNISWAP_V3_def ROCKETSWAP_def AERODROME_def)

lemma swapStage_signal:
  "swapStage signalRuntime signalConfig signalEvent ''0xsignal-1'' 5000000 signalRecord s
   = (Completed, s, [])"
proof -
  have p: "findActor ''AMPLIFIER'' (getProp ''proverb'' signalRecord)
           = Inr (Some (stepOf ''WETH'' ''USDC'' ''SWAP'' ''AMPLIFIER''))"
    by (simp add: findActor_def signalRecord_def stepOf_def)
  have t: "tokenOf signalRuntime (getProp ''from'' (stepOf ''WETH'' ''USDC'' ''SWAP'' ''AMPLIFIER'')) = Some WETH"
    "tokenOf signalRuntime (getProp ''to'' (stepOf ''WETH'' ''USDC'' ''SWAP'' ''AMPLIFIER''))
       = Some ''0x833589fcd6edb6e08f4c7c32d4f71b54bda02913''"
    by (simp_all add: tokenOf_def stepOf_def TOKENS_def)
  have l: "isSemanticallyLegible (stepOf ''WETH'' ''USDC'' ''SWAP'' ''AMPLIFIER'') 4240000000000
             [WETH, ''0x833589fcd6edb6e08f4c7c32d4f71b54bda02913'']"
    by (simp add: isSemanticallyLegible_def stepOf_def MIN_SIGNAL_THRESHOLD_def TOKENS_def WETH_def)
  have a: "getProp ''action'' (stepOf ''WETH'' ''USDC'' ''SWAP'' ''AMPLIFIER'') = Some (JStr ''SWAP'')"
    by (simp add: stepOf_def)
  have n: "e_now signalEvent = 1699968060000" "e_getBalance signalEvent"
    by (simp_all add: signalEvent_def)
  show ?thesis
    by (simp add: swapStage_def p t l a n amount_aligned dexLoop_cascade Let_def)
qed

lemma handle_signal_once:
  assumes "\<not> isAmplifying s" "jamFiles s = signalFiles"
  shows "handleSignal signalRuntime signalConfig signalEvent ''0xsignal-1'' s = (s, [])"
proof -
  have g: "e_gasPrice signalEvent = Inr 5000000" by (simp add: signalEvent_def)
  from assms show ?thesis
    by (simp add: handleSignal_def numeral_3_eq_3 check_event amplification_def g retrieve_signal
        signal_verified swapStage_signal)
qed


end
